theory Spec2Isabelle
  imports Main "HOL-Library.Word" "HOL-Library.Sublist"
begin

section \<open>Bytes, errors and the wrapped sink\<close>

type_synonym byte = "8 word"
type_synonym bytes = "byte list"

text \<open>
  Everything that ends an operation abnormally is a value of \<open>error\<close>.  The first five are
  undefined behaviour of the C++ program (a crash at best): \<open>fwrite\<close>/\<open>fclose\<close> on a null
  \<open>FILE *\<close>, a read past the end of the caller's buffer, a \<open>memcpy\<close> past the end of an internal
  buffer, the use of a variable that was never assigned, a call through a null stream
  pointer.  The others are the \<open>LOGE\<close> exits of the two entry operations.

  Modelled from the spec: the macro \<open>LOGE\<close> is defined in a header that is not among the
  sources.  The spec makes each of these failures immediately fatal to the operation, so
  an \<open>LOGE\<close> in \<open>compress\<close> or \<open>decompress\<close> ends the operation with the matching error.
\<close>

datatype error =
    NullFile
  | ReadOutOfBounds
  | BufferOverflow
  | UninitialisedRead
  | NullStream
  | UnsupportedCompressedType
  | UnsupportedType
  | DecompressionError
  | CompressionError
  | UnknownMethod

text \<open>
  \<open>bwrite(&x, sizeof(x))\<close> on a 32-bit \<open>int\<close>/\<open>unsigned\<close> writes its four bytes in memory order,
  least significant first on the little-endian targets the program is built for;
  \<open>*((unsigned *) inbuf)\<close> reads them back.
\<close>

definition le32 :: "32 word \<Rightarrow> bytes" where
  "le32 w = [ucast w, ucast (drop_bit 8 w), ucast (drop_bit 16 w), ucast (drop_bit 24 w)]"

definition le32_read :: "bytes \<Rightarrow> 32 word" where
  "le32_read bs =
     ucast (bs ! 0) + push_bit 8 (ucast (bs ! 1)) + push_bit 16 (ucast (bs ! 2))
       + push_bit 24 (ucast (bs ! 3))"

text \<open>
  \<open>filter_stream\<close> holds the \<open>FILE *fp\<close> of the sink.  The model keeps whether \<open>fp\<close> is non-null;
  the bytes handed to \<open>fwrite\<close> are returned by each operation, in order.  The return values
  of \<open>fwrite\<close> and \<open>fclose\<close> are never inspected by the adapters, so sink I/O failures are not
  modelled.
\<close>

record filter_stream =
  fp :: bool

definition filter_stream_write :: "'a filter_stream_scheme \<Rightarrow> bytes \<Rightarrow> error + bytes" where
  "filter_stream_write s data = (if fp s then Inr data else Inl NullFile)"

definition filter_stream_close ::
  "'a filter_stream_scheme \<Rightarrow> error + ('a filter_stream_scheme \<times> int)" where
  "filter_stream_close s = (if fp s then Inr (s\<lparr>fp := False\<rparr>, 0) else Inl NullFile)"

text \<open>
  \<open>cpr_stream::close\<close> runs the adapter's \<open>finish\<close> and then \<open>filter_stream::close\<close>;
  \<open>cpr_stream::destroy\<close> runs \<open>finish\<close> only while \<open>fp\<close> is non-null.  \<open>finish\<close> is virtual, so
  it is an argument here.  It returns \<open>None\<close> when a codec loop inside it never ends.
\<close>

definition cpr_stream_close ::
  "('a filter_stream_scheme \<Rightarrow> (error + ('a filter_stream_scheme \<times> bytes)) option) \<Rightarrow>
   'a filter_stream_scheme \<Rightarrow> (error + ('a filter_stream_scheme \<times> int \<times> bytes)) option" where
  "cpr_stream_close finish s =
     (case finish s of
        None \<Rightarrow> None
      | Some (Inl e) \<Rightarrow> Some (Inl e)
      | Some (Inr (s1, out)) \<Rightarrow>
          (case filter_stream_close s1 of
             Inl e \<Rightarrow> Some (Inl e)
           | Inr (s2, ret) \<Rightarrow> Some (Inr (s2, ret, out))))"

definition destroy ::
  "('a filter_stream_scheme \<Rightarrow> (error + ('a filter_stream_scheme \<times> bytes)) option) \<Rightarrow>
   'a filter_stream_scheme \<Rightarrow> (error + ('a filter_stream_scheme \<times> bytes)) option" where
  "destroy finish s = (if fp s then finish s else Some (Inr (s, [])))"

section \<open>The legacy LZ4 block container: encoder\<close>

definition LZ4_UNCOMPRESSED :: nat where
  "LZ4_UNCOMPRESSED = 8388608"

text \<open>
  \<open>LZ4_COMPRESSBOUND\<close> is a macro of the LZ4 library header:
  \<open>isize > LZ4_MAX_INPUT_SIZE ? 0 : isize + isize/255 + 16\<close>.
\<close>

definition LZ4_COMPRESSBOUND :: "nat \<Rightarrow> nat" where
  "LZ4_COMPRESSBOUND isize = (if isize > 2113929216 then 0 else isize + isize div 255 + 16)"

definition LZ4_COMPRESSED :: nat where
  "LZ4_COMPRESSED = LZ4_COMPRESSBOUND LZ4_UNCOMPRESSED"

text \<open>
  \<open>buf\<close> is the 8 MiB working buffer, of which the model keeps the bytes written so far,
  the only ones that are ever read.  \<open>buf_off\<close> is an \<open>int\<close> in the source; a value above
  \<open>LZ4_UNCOMPRESSED\<close> would make \<open>memcpy\<close> write past \<open>buf\<close>.  \<open>in_total\<close> is \<open>unsigned\<close>.
\<close>

record LZ4_encoder = filter_stream +
  buf :: bytes
  enc_init :: bool
  enc_buf_off :: nat
  in_total :: "32 word"

definition LZ4_encoder_new :: "bool \<Rightarrow> LZ4_encoder" where
  "LZ4_encoder_new f = \<lparr>fp = f, buf = [], enc_init = False, enc_buf_off = 0, in_total = 0\<rparr>"

text \<open>
  The library call \<open>LZ4_compress_HC(src, dst, srcSize, LZ4_COMPRESSED, 9)\<close> is the parameter
  \<open>hc\<close>: it maps the source bytes to the compressed block, the empty block standing for
  the return value 0 (failure).

  The \<open>do ... while (size != 0)\<close> loop of \<open>LZ4_encoder::write\<close>.  \<open>inbuf\<close> is the rest of the
  caller's buffer (\<open>size\<close> is its length) and \<open>out\<close> collects what went to the sink.  The
  result carries the return value: \<open>false\<close> is 0, \<open>true\<close> is 1.
\<close>

function LZ4_encoder_loop ::
  "(bytes \<Rightarrow> bytes) \<Rightarrow> LZ4_encoder \<Rightarrow> bytes \<Rightarrow> bytes \<Rightarrow> error + (LZ4_encoder \<times> int \<times> bytes)" where
  "LZ4_encoder_loop hc s inbuf out =
     (if enc_buf_off s + length inbuf \<ge> LZ4_UNCOMPRESSED then
        (if enc_buf_off s > LZ4_UNCOMPRESSED then Inl BufferOverflow
         else
           let consumed = LZ4_UNCOMPRESSED - enc_buf_off s;
               s1 = s\<lparr>buf := take (enc_buf_off s) (buf s) @ take consumed inbuf\<rparr>;
               inbuf' = drop consumed inbuf;
               w = hc (take LZ4_UNCOMPRESSED (buf s1))
           in if length w = 0 then Inr (s1, 0, out)
              else
                (case filter_stream_write s1 (le32 (of_nat (length w))) of
                   Inl e \<Rightarrow> Inl e
                 | Inr o1 \<Rightarrow>
                     (case filter_stream_write s1 w of
                        Inl e \<Rightarrow> Inl e
                      | Inr o2 \<Rightarrow>
                          let s2 = s1\<lparr>enc_buf_off := 0\<rparr>
                          in if inbuf' \<noteq> [] then LZ4_encoder_loop hc s2 inbuf' (out @ o1 @ o2)
                             else Inr (s2, 1, out @ o1 @ o2))))
      else
        Inr (s\<lparr>buf := take (enc_buf_off s) (buf s) @ inbuf,
               enc_buf_off := enc_buf_off s + length inbuf\<rparr>, 1, out))"
  by pat_completeness auto
termination
  by (relation "measure (\<lambda>(hc, s, inbuf, out).
        2 * length inbuf + (if enc_buf_off s \<ge> LZ4_UNCOMPRESSED then 1 else 0))")
     (auto simp: LZ4_UNCOMPRESSED_def)

declare LZ4_encoder_loop.simps [simp del]

definition LZ4_magic :: bytes where
  "LZ4_magic = [0x02, 0x21, 0x4c, 0x18]"

definition LZ4_encoder_write ::
  "(bytes \<Rightarrow> bytes) \<Rightarrow> LZ4_encoder \<Rightarrow> bytes \<Rightarrow> error + (LZ4_encoder \<times> int \<times> bytes)" where
  "LZ4_encoder_write hc s inbuf =
     (case (if \<not> enc_init s
            then (case filter_stream_write s LZ4_magic of
                    Inl e \<Rightarrow> Inl e
                  | Inr o0 \<Rightarrow> Inr (s\<lparr>enc_init := True\<rparr>, o0))
            else Inr (s, [])) of
        Inl e \<Rightarrow> Inl e
      | Inr (s1, o0) \<Rightarrow>
          if length inbuf = 0 then Inr (s1, 0, o0)
          else LZ4_encoder_loop hc (s1\<lparr>in_total := in_total s1 + of_nat (length inbuf)\<rparr>) inbuf o0)"

definition LZ4_encoder_finish ::
  "(bytes \<Rightarrow> bytes) \<Rightarrow> LZ4_encoder \<Rightarrow> error + (LZ4_encoder \<times> bytes)" where
  "LZ4_encoder_finish hc s =
     (case (if enc_buf_off s \<noteq> 0
            then (let w = hc (take (enc_buf_off s) (buf s))
                  in case filter_stream_write s (le32 (of_nat (length w))) of
                       Inl e \<Rightarrow> Inl e
                     | Inr o1 \<Rightarrow>
                         (case filter_stream_write s w of
                            Inl e \<Rightarrow> Inl e
                          | Inr o2 \<Rightarrow> Inr (o1 @ o2)))
            else Inr []) of
        Inl e \<Rightarrow> Inl e
      | Inr o12 \<Rightarrow>
          (case filter_stream_write s (le32 (in_total s)) of
             Inl e \<Rightarrow> Inl e
           | Inr o3 \<Rightarrow> Inr (s, o12 @ o3)))"

definition LZ4_encoder_close ::
  "(bytes \<Rightarrow> bytes) \<Rightarrow> LZ4_encoder \<Rightarrow> (error + (LZ4_encoder \<times> int \<times> bytes)) option" where
  "LZ4_encoder_close hc s = cpr_stream_close (\<lambda>s. Some (LZ4_encoder_finish hc s)) s"

text \<open>\<open>~LZ4_encoder\<close>: \<open>destroy()\<close>, then the two buffers are freed.\<close>

definition LZ4_encoder_dtor ::
  "(bytes \<Rightarrow> bytes) \<Rightarrow> LZ4_encoder \<Rightarrow> (error + (LZ4_encoder \<times> bytes)) option" where
  "LZ4_encoder_dtor hc s = destroy (\<lambda>s. Some (LZ4_encoder_finish hc s)) s"


section \<open>The legacy LZ4 block container: decoder\<close>

text \<open>
  \<open>buffer\<close> is the block accumulator of \<open>LZ4_COMPRESSED\<close> bytes, of which the model keeps the
  bytes written so far; \<open>block_sz\<close> is \<open>unsigned\<close>, \<open>buf_off\<close> an \<open>int\<close> that is only ever reset
  to 0 or increased.
\<close>

record LZ4_decoder = filter_stream +
  buffer :: bytes
  dec_init :: bool
  block_sz :: "32 word"
  dec_buf_off :: nat

definition LZ4_decoder_new :: "bool \<Rightarrow> LZ4_decoder" where
  "LZ4_decoder_new f = \<lparr>fp = f, buffer = [], dec_init = False, block_sz = 0, dec_buf_off = 0\<rparr>"

text \<open>
  The library call \<open>LZ4_decompress_safe(buffer, out_buf, block_sz, LZ4_UNCOMPRESSED)\<close> is the
  parameter \<open>dec\<close>: source bytes and destination capacity to the decoded bytes, \<open>None\<close> for a
  negative return value.

  The \<open>do ... while (size != 0)\<close> loop of \<open>LZ4_decoder::write\<close>.  \<open>inbuf\<close> is the rest of the
  caller's buffer, \<open>size\<close> its length.  The source advances \<open>inbuf\<close> and subtracts from the
  unsigned \<open>size\<close> without looking at how much is left; the model stops with
  \<open>ReadOutOfBounds\<close> where the bytes read lie past the end of the caller's buffer, and with
  \<open>BufferOverflow\<close> where \<open>memcpy\<close> would write past \<open>buffer\<close>.  \<open>consumed = block_sz - buf_off\<close>
  is computed in 32-bit unsigned arithmetic.  \<open>ret\<close> is the value \<open>write\<close> returns when the
  loop runs to its end.
\<close>

function LZ4_decoder_loop ::
  "(bytes \<Rightarrow> nat \<Rightarrow> bytes option) \<Rightarrow> int \<Rightarrow> LZ4_decoder \<Rightarrow> bytes \<Rightarrow> bytes \<Rightarrow>
   error + (LZ4_decoder \<times> int \<times> bytes)" where
  "LZ4_decoder_loop dec ret s inbuf out =
     (if block_sz s = 0 then
        (if length inbuf < 4 then Inl ReadOutOfBounds
         else
           let s1 = s\<lparr>block_sz := le32_read (take 4 inbuf)\<rparr>;
               inbuf' = drop 4 inbuf
           in if inbuf' \<noteq> [] then LZ4_decoder_loop dec ret s1 inbuf' out
              else Inr (s1, ret, out))
      else if dec_buf_off s + length inbuf \<ge> unat (block_sz s) then
        (let consumed = unat (block_sz s - of_nat (dec_buf_off s))
         in if consumed > length inbuf then Inl ReadOutOfBounds
            else if dec_buf_off s + consumed > LZ4_COMPRESSED then Inl BufferOverflow
            else
              let s1 = s\<lparr>buffer := take (dec_buf_off s) (buffer s) @ take consumed inbuf\<rparr>;
                  inbuf' = drop consumed inbuf
              in (case dec (take (unat (block_sz s)) (buffer s1)) LZ4_UNCOMPRESSED of
                    None \<Rightarrow> Inr (s1, - 1, out)
                  | Some w \<Rightarrow>
                      (case filter_stream_write s1 w of
                         Inl e \<Rightarrow> Inl e
                       | Inr o1 \<Rightarrow>
                           let s2 = s1\<lparr>dec_buf_off := 0, block_sz := 0\<rparr>
                           in if inbuf' \<noteq> [] then LZ4_decoder_loop dec ret s2 inbuf' (out @ o1)
                              else Inr (s2, ret, out @ o1))))
      else
        (if dec_buf_off s + length inbuf > LZ4_COMPRESSED then Inl BufferOverflow
         else Inr (s\<lparr>buffer := take (dec_buf_off s) (buffer s) @ inbuf,
                     dec_buf_off := dec_buf_off s + length inbuf\<rparr>, ret, out)))"
  by pat_completeness auto
termination
  by (relation "measure (\<lambda>(dec, ret, s, inbuf, out).
        2 * length inbuf + (if block_sz s = 0 then 0 else 1))") auto

declare LZ4_decoder_loop.simps [simp del]

text \<open>
  \<open>LZ4_decoder::write\<close>.  On the first call the source skips the magic with \<open>inbuf += 4;
  size -= 4\<close>; with fewer than 4 bytes \<open>size\<close> wraps around and \<open>inbuf\<close> points past the
  buffer, so that whatever the loop does next reads out of bounds.
\<close>

definition LZ4_decoder_write ::
  "(bytes \<Rightarrow> nat \<Rightarrow> bytes option) \<Rightarrow> LZ4_decoder \<Rightarrow> bytes \<Rightarrow>
   error + (LZ4_decoder \<times> int \<times> bytes)" where
  "LZ4_decoder_write dec s inbuf =
     (let ret = int (length inbuf)
      in case (if \<not> dec_init s
               then (if length inbuf < 4 then Inl ReadOutOfBounds
                     else Inr (s\<lparr>dec_init := True\<rparr>, drop 4 inbuf))
               else Inr (s, inbuf)) of
           Inl e \<Rightarrow> Inl e
         | Inr (s1, inbuf1) \<Rightarrow> LZ4_decoder_loop dec ret s1 inbuf1 [])"

text \<open>\<open>LZ4_decoder\<close> does not override \<open>finish\<close>: the base \<open>cpr_stream::finish\<close> is empty.\<close>

definition cpr_stream_finish ::
  "'a filter_stream_scheme \<Rightarrow> (error + ('a filter_stream_scheme \<times> bytes)) option" where
  "cpr_stream_finish s = Some (Inr (s, []))"

definition LZ4_decoder_close ::
  "LZ4_decoder \<Rightarrow> (error + (LZ4_decoder \<times> int \<times> bytes)) option" where
  "LZ4_decoder_close s = cpr_stream_close cpr_stream_finish s"


section \<open>The codec libraries\<close>

text \<open>
  zlib, bzip2, liblzma and the LZ4 frame API are external libraries; their entry points are
  the fields of one record, over an opaque type \<open>'c\<close> of codec contexts.

  A step function (\<open>inflate\<close>, \<open>deflate\<close>, \<open>BZ2_bzCompress\<close>, \<open>lzma_code\<close>, ...) gets the
  context, the input still available (\<open>next_in\<close>, \<open>avail_in\<close>), the action code and the room
  in the output buffer (\<open>avail_out\<close>); it yields the return code, the new context, the
  input left over and the bytes it put into the output buffer.

  For the LZ4 frame API a \<open>bool\<close> stands for \<open>LZ4F_isError\<close> of the returned code.
  \<open>LZ4F_getFrameInfo\<close> yields the block size identifier it stored in \<open>info\<close> (\<open>None\<close> when it
  left \<open>info\<close> untouched) and the number of bytes it read.
\<close>

type_synonym 'c step = "'c \<Rightarrow> bytes \<Rightarrow> int \<Rightarrow> nat \<Rightarrow> int \<times> 'c \<times> bytes \<times> bytes"

datatype LZ4F_blockSizeID_t = LZ4F_default | LZ4F_max64KB | LZ4F_max256KB | LZ4F_max1MB | LZ4F_max4MB

record 'c codec_lib =
  inflateInit2 :: "'c"
  deflateInit2 :: "'c"
  inflate :: "'c step"
  deflate :: "'c step"
  inflateEnd :: "'c \<Rightarrow> 'c"
  deflateEnd :: "'c \<Rightarrow> 'c"
  BZ2_bzDecompressInit :: "'c"
  BZ2_bzCompressInit :: "'c"
  BZ2_bzDecompress :: "'c \<Rightarrow> bytes \<Rightarrow> nat \<Rightarrow> int \<times> 'c \<times> bytes \<times> bytes"
  BZ2_bzCompress :: "'c step"
  BZ2_bzDecompressEnd :: "'c \<Rightarrow> 'c"
  BZ2_bzCompressEnd :: "'c \<Rightarrow> 'c"
  lzma_auto_decoder :: "'c"
  lzma_stream_encoder :: "'c"
  lzma_alone_encoder :: "'c"
  lzma_code :: "'c step"
  lzma_end :: "'c \<Rightarrow> 'c"
  LZ4F_createDecompressionContext :: "'c"
  LZ4F_getFrameInfo :: "'c \<Rightarrow> bytes \<Rightarrow> 'c \<times> LZ4F_blockSizeID_t option \<times> nat"
  LZ4F_decompress :: "'c \<Rightarrow> nat \<Rightarrow> bytes \<Rightarrow> bool \<times> 'c \<times> nat \<times> bytes"
  LZ4F_createCompressionContext :: "'c"
  LZ4F_compressBound :: "nat \<Rightarrow> nat"
  LZ4F_compressBegin :: "'c \<Rightarrow> nat \<Rightarrow> bool \<times> 'c \<times> bytes"
  LZ4F_compressUpdate :: "'c \<Rightarrow> nat \<Rightarrow> bytes \<Rightarrow> bool \<times> 'c \<times> bytes"
  LZ4F_compressEnd :: "'c \<Rightarrow> nat \<Rightarrow> bool \<times> 'c \<times> bytes"
  LZ4_compress_HC :: "bytes \<Rightarrow> bytes"
  LZ4_decompress_safe :: "bytes \<Rightarrow> nat \<Rightarrow> bytes option"

definition CHUNK :: nat where
  "CHUNK = 262144"

section \<open>gzip\<close>

datatype gz_mode_t = GZ_DECODE | GZ_ENCODE

record 'c gz_strm = filter_stream +
  gz_mode :: gz_mode_t
  gz_z :: 'c

definition Z_NO_FLUSH :: int where "Z_NO_FLUSH = 0"
definition Z_FINISH :: int where "Z_FINISH = 4"
definition Z_STREAM_ERROR :: int where "Z_STREAM_ERROR = - 2"

definition gz_strm_new :: "'c codec_lib \<Rightarrow> gz_mode_t \<Rightarrow> bool \<Rightarrow> 'c gz_strm" where
  "gz_strm_new lib m f =
     \<lparr>fp = f, gz_mode = m,
      gz_z = (case m of GZ_DECODE \<Rightarrow> inflateInit2 lib | GZ_ENCODE \<Rightarrow> deflateInit2 lib)\<rparr>"

text \<open>
  The \<open>do ... while (strm.avail_out == 0)\<close> loop of the private three-argument
  \<open>gz_strm::write\<close>.  Whether it ends depends on the library, so the result is an option.
\<close>

partial_function (option) gz_loop ::
  "'c codec_lib \<Rightarrow> int \<Rightarrow> int \<Rightarrow> 'c gz_strm \<Rightarrow> bytes \<Rightarrow> bytes \<Rightarrow>
   (error + ('c gz_strm \<times> int \<times> bytes)) option" where
  "gz_loop lib flush ret s next_in out =
     (case (case gz_mode s of
              GZ_DECODE \<Rightarrow> inflate lib (gz_z s) next_in flush CHUNK
            | GZ_ENCODE \<Rightarrow> deflate lib (gz_z s) next_in flush CHUNK) of
        (code, z, next_in', outbuf) \<Rightarrow>
          if code = Z_STREAM_ERROR then Some (Inr (s\<lparr>gz_z := z\<rparr>, - 1, out))
          else
            (case filter_stream_write s outbuf of
               Inl e \<Rightarrow> Some (Inl e)
             | Inr o1 \<Rightarrow>
                 if CHUNK - length outbuf = 0
                 then gz_loop lib flush ret (s\<lparr>gz_z := z\<rparr>) next_in' (out @ o1)
                 else Some (Inr (s\<lparr>gz_z := z\<rparr>, ret, out @ o1))))"

definition gz_write3 ::
  "'c codec_lib \<Rightarrow> 'c gz_strm \<Rightarrow> bytes \<Rightarrow> int \<Rightarrow> (error + ('c gz_strm \<times> int \<times> bytes)) option" where
  "gz_write3 lib s inbuf flush = gz_loop lib flush (int (length inbuf)) s inbuf []"

definition gz_write ::
  "'c codec_lib \<Rightarrow> 'c gz_strm \<Rightarrow> bytes \<Rightarrow> (error + ('c gz_strm \<times> int \<times> bytes)) option" where
  "gz_write lib s inbuf =
     (if length inbuf \<noteq> 0 then gz_write3 lib s inbuf Z_NO_FLUSH else Some (Inr (s, 0, [])))"

definition gz_finish ::
  "'c codec_lib \<Rightarrow> 'c gz_strm \<Rightarrow> (error + ('c gz_strm \<times> bytes)) option" where
  "gz_finish lib s =
     (case gz_write3 lib s [] Z_FINISH of
        None \<Rightarrow> None
      | Some (Inl e) \<Rightarrow> Some (Inl e)
      | Some (Inr (s1, r, out)) \<Rightarrow>
          Some (Inr (s1\<lparr>gz_z := (case gz_mode s1 of
                                     GZ_DECODE \<Rightarrow> inflateEnd lib (gz_z s1)
                                   | GZ_ENCODE \<Rightarrow> deflateEnd lib (gz_z s1))\<rparr>, out)))"

section \<open>bzip2\<close>

datatype bz_mode_t = BZ_DECODE | BZ_ENCODE

record 'c bz_strm = filter_stream +
  bz_mode :: bz_mode_t
  bz_z :: 'c

definition BZ_RUN :: int where "BZ_RUN = 0"
definition BZ_FINISH :: int where "BZ_FINISH = 2"

definition bz_strm_new :: "'c codec_lib \<Rightarrow> bz_mode_t \<Rightarrow> bool \<Rightarrow> 'c bz_strm" where
  "bz_strm_new lib m f =
     \<lparr>fp = f, bz_mode = m,
      bz_z = (case m of BZ_DECODE \<Rightarrow> BZ2_bzDecompressInit lib
                      | BZ_ENCODE \<Rightarrow> BZ2_bzCompressInit lib)\<rparr>"

partial_function (option) bz_loop ::
  "'c codec_lib \<Rightarrow> int \<Rightarrow> int \<Rightarrow> 'c bz_strm \<Rightarrow> bytes \<Rightarrow> bytes \<Rightarrow>
   (error + ('c bz_strm \<times> int \<times> bytes)) option" where
  "bz_loop lib flush ret s next_in out =
     (case (case bz_mode s of
              BZ_DECODE \<Rightarrow> BZ2_bzDecompress lib (bz_z s) next_in CHUNK
            | BZ_ENCODE \<Rightarrow> BZ2_bzCompress lib (bz_z s) next_in flush CHUNK) of
        (code, z, next_in', outbuf) \<Rightarrow>
          if code < 0 then Some (Inr (s\<lparr>bz_z := z\<rparr>, - 1, out))
          else
            (case filter_stream_write s outbuf of
               Inl e \<Rightarrow> Some (Inl e)
             | Inr o1 \<Rightarrow>
                 if CHUNK - length outbuf = 0
                 then bz_loop lib flush ret (s\<lparr>bz_z := z\<rparr>) next_in' (out @ o1)
                 else Some (Inr (s\<lparr>bz_z := z\<rparr>, ret, out @ o1))))"

definition bz_write3 ::
  "'c codec_lib \<Rightarrow> 'c bz_strm \<Rightarrow> bytes \<Rightarrow> int \<Rightarrow> (error + ('c bz_strm \<times> int \<times> bytes)) option" where
  "bz_write3 lib s inbuf flush = bz_loop lib flush (int (length inbuf)) s inbuf []"

definition bz_write ::
  "'c codec_lib \<Rightarrow> 'c bz_strm \<Rightarrow> bytes \<Rightarrow> (error + ('c bz_strm \<times> int \<times> bytes)) option" where
  "bz_write lib s inbuf =
     (if length inbuf \<noteq> 0 then bz_write3 lib s inbuf BZ_RUN else Some (Inr (s, 0, [])))"

definition bz_finish ::
  "'c codec_lib \<Rightarrow> 'c bz_strm \<Rightarrow> (error + ('c bz_strm \<times> bytes)) option" where
  "bz_finish lib s =
     (case bz_mode s of
        BZ_DECODE \<Rightarrow> Some (Inr (s\<lparr>bz_z := BZ2_bzDecompressEnd lib (bz_z s)\<rparr>, []))
      | BZ_ENCODE \<Rightarrow>
          (case bz_write3 lib s [] BZ_FINISH of
             None \<Rightarrow> None
           | Some (Inl e) \<Rightarrow> Some (Inl e)
           | Some (Inr (s1, r, out)) \<Rightarrow>
               Some (Inr (s1\<lparr>bz_z := BZ2_bzCompressEnd lib (bz_z s1)\<rparr>, out))))"

section \<open>LZMA and XZ\<close>

datatype lzma_mode_t = LZMA_DECODE | ENCODE_XZ | ENCODE_LZMA

record 'c lzma_strm = filter_stream +
  lzma_mode :: lzma_mode_t
  lzma_z :: 'c

definition LZMA_RUN :: int where "LZMA_RUN = 0"
definition LZMA_FINISH :: int where "LZMA_FINISH = 3"
definition LZMA_OK :: int where "LZMA_OK = 0"
definition LZMA_STREAM_END :: int where "LZMA_STREAM_END = 1"

definition lzma_strm_new :: "'c codec_lib \<Rightarrow> lzma_mode_t \<Rightarrow> bool \<Rightarrow> 'c lzma_strm" where
  "lzma_strm_new lib m f =
     \<lparr>fp = f, lzma_mode = m,
      lzma_z = (case m of LZMA_DECODE \<Rightarrow> lzma_auto_decoder lib
                        | ENCODE_XZ \<Rightarrow> lzma_stream_encoder lib
                        | ENCODE_LZMA \<Rightarrow> lzma_alone_encoder lib)\<rparr>"

partial_function (option) lzma_loop ::
  "'c codec_lib \<Rightarrow> int \<Rightarrow> int \<Rightarrow> 'c lzma_strm \<Rightarrow> bytes \<Rightarrow> bytes \<Rightarrow>
   (error + ('c lzma_strm \<times> int \<times> bytes)) option" where
  "lzma_loop lib flush ret s next_in out =
     (case lzma_code lib (lzma_z s) next_in flush CHUNK of
        (code, z, next_in', outbuf) \<Rightarrow>
          if code \<noteq> LZMA_OK \<and> code \<noteq> LZMA_STREAM_END
          then Some (Inr (s\<lparr>lzma_z := z\<rparr>, - 1, out))
          else
            (case filter_stream_write s outbuf of
               Inl e \<Rightarrow> Some (Inl e)
             | Inr o1 \<Rightarrow>
                 if CHUNK - length outbuf = 0
                 then lzma_loop lib flush ret (s\<lparr>lzma_z := z\<rparr>) next_in' (out @ o1)
                 else Some (Inr (s\<lparr>lzma_z := z\<rparr>, ret, out @ o1))))"

definition lzma_write3 ::
  "'c codec_lib \<Rightarrow> 'c lzma_strm \<Rightarrow> bytes \<Rightarrow> int \<Rightarrow>
   (error + ('c lzma_strm \<times> int \<times> bytes)) option" where
  "lzma_write3 lib s inbuf flush = lzma_loop lib flush (int (length inbuf)) s inbuf []"

definition lzma_write ::
  "'c codec_lib \<Rightarrow> 'c lzma_strm \<Rightarrow> bytes \<Rightarrow> (error + ('c lzma_strm \<times> int \<times> bytes)) option" where
  "lzma_write lib s inbuf =
     (if length inbuf \<noteq> 0 then lzma_write3 lib s inbuf LZMA_RUN else Some (Inr (s, 0, [])))"

definition lzma_finish ::
  "'c codec_lib \<Rightarrow> 'c lzma_strm \<Rightarrow> (error + ('c lzma_strm \<times> bytes)) option" where
  "lzma_finish lib s =
     (case lzma_write3 lib s [] LZMA_FINISH of
        None \<Rightarrow> None
      | Some (Inl e) \<Rightarrow> Some (Inl e)
      | Some (Inr (s1, r, out)) \<Rightarrow> Some (Inr (s1\<lparr>lzma_z := lzma_end lib (lzma_z s1)\<rparr>, out)))"


section \<open>The LZ4 frame container\<close>

text \<open>
  \<open>outbuf\<close> is null until the first \<open>write\<close>; the model keeps whether it is allocated.  The
  decoder's \<open>outCapacity\<close> has no initialiser: it is meaningful only once \<open>read_header\<close> has
  assigned it.
\<close>

record 'c LZ4F_decoder = filter_stream +
  dctx :: 'c
  dec_outbuf :: bool
  dec_outCapacity :: nat

definition LZ4F_decoder_new :: "'c codec_lib \<Rightarrow> bool \<Rightarrow> 'c LZ4F_decoder" where
  "LZ4F_decoder_new lib f =
     \<lparr>fp = f, dctx = LZ4F_createDecompressionContext lib, dec_outbuf = False, dec_outCapacity = 0\<rparr>"

text \<open>
  \<open>read_header\<close> ignores the code returned by \<open>LZ4F_getFrameInfo\<close> and switches on
  \<open>info.blockSizeID\<close>; \<open>info\<close> is a local without initialiser, so when the library has not
  filled it in, the switch reads an indeterminate value.
\<close>

definition read_header ::
  "'c codec_lib \<Rightarrow> 'c LZ4F_decoder \<Rightarrow> bytes \<Rightarrow> error + ('c LZ4F_decoder \<times> bytes)" where
  "read_header lib s inbuf =
     (case LZ4F_getFrameInfo lib (dctx s) inbuf of
        (c, info, read) \<Rightarrow>
          (case info of
             None \<Rightarrow> Inl UninitialisedRead
           | Some blockSizeID \<Rightarrow>
               Inr (s\<lparr>dctx := c,
                      dec_outCapacity :=
                        (case blockSizeID of
                           LZ4F_default \<Rightarrow> 2 ^ 16
                         | LZ4F_max64KB \<Rightarrow> 2 ^ 16
                         | LZ4F_max256KB \<Rightarrow> 2 ^ 18
                         | LZ4F_max1MB \<Rightarrow> 2 ^ 20
                         | LZ4F_max4MB \<Rightarrow> 2 ^ 22),
                      dec_outbuf := True\<rparr>,
                    drop read inbuf)))"

partial_function (option) LZ4F_decoder_loop ::
  "'c codec_lib \<Rightarrow> int \<Rightarrow> 'c LZ4F_decoder \<Rightarrow> bytes \<Rightarrow> bytes \<Rightarrow>
   (error + ('c LZ4F_decoder \<times> int \<times> bytes)) option" where
  "LZ4F_decoder_loop lib ret s inbuf out =
     (case LZ4F_decompress lib (dctx s) (dec_outCapacity s) inbuf of
        (err, c, read, outbuf) \<Rightarrow>
          if err then Some (Inr (s\<lparr>dctx := c\<rparr>, - 1, out))
          else
            (case filter_stream_write s outbuf of
               Inl e \<Rightarrow> Some (Inl e)
             | Inr o1 \<Rightarrow>
                 if length inbuf - read \<noteq> 0 \<or> length outbuf \<noteq> 0
                 then LZ4F_decoder_loop lib ret (s\<lparr>dctx := c\<rparr>) (drop read inbuf) (out @ o1)
                 else Some (Inr (s\<lparr>dctx := c\<rparr>, ret, out @ o1))))"

definition LZ4F_decoder_write ::
  "'c codec_lib \<Rightarrow> 'c LZ4F_decoder \<Rightarrow> bytes \<Rightarrow>
   (error + ('c LZ4F_decoder \<times> int \<times> bytes)) option" where
  "LZ4F_decoder_write lib s inbuf =
     (case (if \<not> dec_outbuf s then read_header lib s inbuf else Inr (s, inbuf)) of
        Inl e \<Rightarrow> Some (Inl e)
      | Inr (s1, inbuf1) \<Rightarrow> LZ4F_decoder_loop lib (int (length inbuf)) s1 inbuf1 [])"

record 'c LZ4F_encoder = filter_stream +
  cctx :: 'c
  enc_outbuf :: bool
  enc_outCapacity :: nat

definition LZ4F_encoder_new :: "'c codec_lib \<Rightarrow> bool \<Rightarrow> 'c LZ4F_encoder" where
  "LZ4F_encoder_new lib f =
     \<lparr>fp = f, cctx = LZ4F_createCompressionContext lib, enc_outbuf = False, enc_outCapacity = 0\<rparr>"

definition BLOCK_SZ :: nat where
  "BLOCK_SZ = 2 ^ 22"

text \<open>
  The sizes returned by \<open>LZ4F_compressBegin\<close> and \<open>LZ4F_compressEnd\<close> are handed to \<open>bwrite\<close>
  unchecked; an error code is a size near the top of \<open>size_t\<close>, far beyond \<open>outbuf\<close>.
\<close>

definition write_header ::
  "'c codec_lib \<Rightarrow> 'c LZ4F_encoder \<Rightarrow> error + ('c LZ4F_encoder \<times> bytes)" where
  "write_header lib s =
     (let s1 = s\<lparr>enc_outbuf := True, enc_outCapacity := LZ4F_compressBound lib BLOCK_SZ\<rparr>
      in case LZ4F_compressBegin lib (cctx s1) (enc_outCapacity s1) of
           (err, c, outbuf) \<Rightarrow>
             if err then Inl ReadOutOfBounds
             else (case filter_stream_write s1 outbuf of
                     Inl e \<Rightarrow> Inl e
                   | Inr o1 \<Rightarrow> Inr (s1\<lparr>cctx := c\<rparr>, o1)))"

function LZ4F_encoder_loop ::
  "'c codec_lib \<Rightarrow> int \<Rightarrow> 'c LZ4F_encoder \<Rightarrow> bytes \<Rightarrow> bytes \<Rightarrow>
   error + ('c LZ4F_encoder \<times> int \<times> bytes)" where
  "LZ4F_encoder_loop lib ret s inbuf out =
     (let read = (if length inbuf > BLOCK_SZ then BLOCK_SZ else length inbuf)
      in case LZ4F_compressUpdate lib (cctx s) (enc_outCapacity s) (take read inbuf) of
           (err, c, outbuf) \<Rightarrow>
             if err then Inr (s\<lparr>cctx := c\<rparr>, - 1, out)
             else
               (case filter_stream_write s outbuf of
                  Inl e \<Rightarrow> Inl e
                | Inr o1 \<Rightarrow>
                    if drop read inbuf \<noteq> []
                    then LZ4F_encoder_loop lib ret (s\<lparr>cctx := c\<rparr>) (drop read inbuf) (out @ o1)
                    else Inr (s\<lparr>cctx := c\<rparr>, ret, out @ o1)))"
  by pat_completeness auto
termination
  by (relation "measure (\<lambda>(lib, ret, s, inbuf, out). length inbuf)")
     (auto simp: BLOCK_SZ_def split: if_splits)

declare LZ4F_encoder_loop.simps [simp del]

definition LZ4F_encoder_write ::
  "'c codec_lib \<Rightarrow> 'c LZ4F_encoder \<Rightarrow> bytes \<Rightarrow> error + ('c LZ4F_encoder \<times> int \<times> bytes)" where
  "LZ4F_encoder_write lib s inbuf =
     (case (if \<not> enc_outbuf s then write_header lib s else Inr (s, [])) of
        Inl e \<Rightarrow> Inl e
      | Inr (s1, o0) \<Rightarrow>
          if length inbuf = 0 then Inr (s1, 0, o0)
          else LZ4F_encoder_loop lib (int (length inbuf)) s1 inbuf o0)"

definition LZ4F_encoder_finish ::
  "'c codec_lib \<Rightarrow> 'c LZ4F_encoder \<Rightarrow> error + ('c LZ4F_encoder \<times> bytes)" where
  "LZ4F_encoder_finish lib s =
     (case LZ4F_compressEnd lib (cctx s) (enc_outCapacity s) of
        (err, c, outbuf) \<Rightarrow>
          if err then Inl ReadOutOfBounds
          else (case filter_stream_write s outbuf of
                  Inl e \<Rightarrow> Inl e
                | Inr o1 \<Rightarrow> Inr (s\<lparr>cctx := c\<rparr>, o1)))"

section \<open>The adapters behind one interface\<close>

text \<open>
  The seven concrete classes behind \<open>stream *\<close>; \<open>write\<close>, \<open>close\<close> and the destructor are
  virtual, so each dispatches on the class.
\<close>

datatype 'c stream =
    Gz_strm "'c gz_strm"
  | Bz_strm "'c bz_strm"
  | Lzma_strm "'c lzma_strm"
  | LZ4F_dec "'c LZ4F_decoder"
  | LZ4F_enc "'c LZ4F_encoder"
  | LZ4_dec LZ4_decoder
  | LZ4_enc LZ4_encoder

definition with_class ::
  "('s \<Rightarrow> 't) \<Rightarrow> (error + ('s \<times> 'r)) option \<Rightarrow> (error + ('t \<times> 'r)) option" where
  "with_class C res =
     (case res of
        None \<Rightarrow> None
      | Some (Inl e) \<Rightarrow> Some (Inl e)
      | Some (Inr (s, r)) \<Rightarrow> Some (Inr (C s, r)))"

fun stream_fp :: "'c stream \<Rightarrow> bool" where
  "stream_fp (Gz_strm s) = fp s"
| "stream_fp (Bz_strm s) = fp s"
| "stream_fp (Lzma_strm s) = fp s"
| "stream_fp (LZ4F_dec s) = fp s"
| "stream_fp (LZ4F_enc s) = fp s"
| "stream_fp (LZ4_dec s) = fp s"
| "stream_fp (LZ4_enc s) = fp s"

fun stream_write ::
  "'c codec_lib \<Rightarrow> 'c stream \<Rightarrow> bytes \<Rightarrow> (error + ('c stream \<times> int \<times> bytes)) option" where
  "stream_write lib (Gz_strm s) inbuf = with_class Gz_strm (gz_write lib s inbuf)"
| "stream_write lib (Bz_strm s) inbuf = with_class Bz_strm (bz_write lib s inbuf)"
| "stream_write lib (Lzma_strm s) inbuf = with_class Lzma_strm (lzma_write lib s inbuf)"
| "stream_write lib (LZ4F_dec s) inbuf = with_class LZ4F_dec (LZ4F_decoder_write lib s inbuf)"
| "stream_write lib (LZ4F_enc s) inbuf =
     with_class LZ4F_enc (Some (LZ4F_encoder_write lib s inbuf))"
| "stream_write lib (LZ4_dec s) inbuf =
     with_class LZ4_dec (Some (LZ4_decoder_write (LZ4_decompress_safe lib) s inbuf))"
| "stream_write lib (LZ4_enc s) inbuf =
     with_class LZ4_enc (Some (LZ4_encoder_write (LZ4_compress_HC lib) s inbuf))"

fun stream_close ::
  "'c codec_lib \<Rightarrow> 'c stream \<Rightarrow> (error + ('c stream \<times> int \<times> bytes)) option" where
  "stream_close lib (Gz_strm s) = with_class Gz_strm (cpr_stream_close (gz_finish lib) s)"
| "stream_close lib (Bz_strm s) = with_class Bz_strm (cpr_stream_close (bz_finish lib) s)"
| "stream_close lib (Lzma_strm s) = with_class Lzma_strm (cpr_stream_close (lzma_finish lib) s)"
| "stream_close lib (LZ4F_dec s) = with_class LZ4F_dec (cpr_stream_close cpr_stream_finish s)"
| "stream_close lib (LZ4F_enc s) =
     with_class LZ4F_enc (cpr_stream_close (\<lambda>s. Some (LZ4F_encoder_finish lib s)) s)"
| "stream_close lib (LZ4_dec s) = with_class LZ4_dec (LZ4_decoder_close s)"
| "stream_close lib (LZ4_enc s) = with_class LZ4_enc (LZ4_encoder_close (LZ4_compress_HC lib) s)"

text \<open>
  The destructors as \<open>compress.cpp\<close> writes them: those of the classes that override
  \<open>finish\<close> call \<open>destroy()\<close>; the two LZ4 decoders only release memory.
\<close>

fun stream_dtor ::
  "'c codec_lib \<Rightarrow> 'c stream \<Rightarrow> (error + ('c stream \<times> bytes)) option" where
  "stream_dtor lib (Gz_strm s) = with_class Gz_strm (destroy (gz_finish lib) s)"
| "stream_dtor lib (Bz_strm s) = with_class Bz_strm (destroy (bz_finish lib) s)"
| "stream_dtor lib (Lzma_strm s) = with_class Lzma_strm (destroy (lzma_finish lib) s)"
| "stream_dtor lib (LZ4F_dec s) = Some (Inr (LZ4F_dec s, []))"
| "stream_dtor lib (LZ4F_enc s) =
     with_class LZ4F_enc (destroy (\<lambda>s. Some (LZ4F_encoder_finish lib s)) s)"
| "stream_dtor lib (LZ4_dec s) = Some (Inr (LZ4_dec s, []))"
| "stream_dtor lib (LZ4_enc s) = with_class LZ4_enc (LZ4_encoder_dtor (LZ4_compress_HC lib) s)"

section \<open>Format tags and the factories\<close>

text \<open>
  Modelled from the spec: the enumeration \<open>format_t\<close> is declared in a header that is not
  among the sources.  The spec lists the tags GZIP, BZIP2, XZ, LZMA-alone, LZ4-frame,
  LZ4-legacy and unknown; \<open>OTHER\<close> stands for any further enumerator or integer value a
  \<open>format_t\<close> can hold.
\<close>

datatype format_t = UNKNOWN | GZIP | XZ | LZMA | BZIP2 | LZ4 | LZ4_LEGACY | OTHER nat

definition gz_decoder :: "'c codec_lib \<Rightarrow> bool \<Rightarrow> 'c gz_strm" where
  "gz_decoder lib f = gz_strm_new lib GZ_DECODE f"

definition gz_encoder :: "'c codec_lib \<Rightarrow> bool \<Rightarrow> 'c gz_strm" where
  "gz_encoder lib f = gz_strm_new lib GZ_ENCODE f"

definition bz_decoder :: "'c codec_lib \<Rightarrow> bool \<Rightarrow> 'c bz_strm" where
  "bz_decoder lib f = bz_strm_new lib BZ_DECODE f"

definition bz_encoder :: "'c codec_lib \<Rightarrow> bool \<Rightarrow> 'c bz_strm" where
  "bz_encoder lib f = bz_strm_new lib BZ_ENCODE f"

definition lzma_decoder :: "'c codec_lib \<Rightarrow> bool \<Rightarrow> 'c lzma_strm" where
  "lzma_decoder lib f = lzma_strm_new lib LZMA_DECODE f"

definition xz_encoder :: "'c codec_lib \<Rightarrow> bool \<Rightarrow> 'c lzma_strm" where
  "xz_encoder lib f = lzma_strm_new lib ENCODE_XZ f"

definition lzma_encoder :: "'c codec_lib \<Rightarrow> bool \<Rightarrow> 'c lzma_strm" where
  "lzma_encoder lib f = lzma_strm_new lib ENCODE_LZMA f"

text \<open>
  The factories return a pointer obtained from \<open>new\<close>; \<open>None\<close> would be the null pointer.
\<close>

fun get_encoder :: "'c codec_lib \<Rightarrow> format_t \<Rightarrow> bool \<Rightarrow> 'c stream option" where
  "get_encoder lib XZ f = Some (Lzma_strm (xz_encoder lib f))"
| "get_encoder lib LZMA f = Some (Lzma_strm (lzma_encoder lib f))"
| "get_encoder lib BZIP2 f = Some (Bz_strm (bz_encoder lib f))"
| "get_encoder lib LZ4 f = Some (LZ4F_enc (LZ4F_encoder_new lib f))"
| "get_encoder lib LZ4_LEGACY f = Some (LZ4_enc (LZ4_encoder_new f))"
| "get_encoder lib _ f = Some (Gz_strm (gz_encoder lib f))"

fun get_decoder :: "'c codec_lib \<Rightarrow> format_t \<Rightarrow> bool \<Rightarrow> 'c stream option" where
  "get_decoder lib XZ f = Some (Lzma_strm (lzma_decoder lib f))"
| "get_decoder lib LZMA f = Some (Lzma_strm (lzma_decoder lib f))"
| "get_decoder lib BZIP2 f = Some (Bz_strm (bz_decoder lib f))"
| "get_decoder lib LZ4 f = Some (LZ4F_dec (LZ4F_decoder_new lib f))"
| "get_decoder lib LZ4_LEGACY f = Some (LZ4_dec (LZ4_decoder_new f))"
| "get_decoder lib _ f = Some (Gz_strm (gz_decoder lib f))"


section \<open>The entry operations\<close>

text \<open>
  \<open>check_fmt\<close>, the macro \<open>COMPRESSED\<close> and the tables \<open>fmt2ext\<close> and \<open>name2fmt\<close> are defined
  outside the two source files; they are parameters.
\<close>

record format_tables =
  check_fmt :: "bytes \<Rightarrow> format_t"
  COMPRESSED :: "format_t \<Rightarrow> bool"
  fmt2ext :: "format_t \<Rightarrow> string"
  name2fmt :: "string \<Rightarrow> format_t option"

text \<open>
  The successive results of \<open>fread(buf, 1, 4096, in_fp)\<close> on an input holding \<open>data\<close>: full
  windows, then the rest; the read loop ends at the first empty result.
\<close>

function fread_windows :: "bytes \<Rightarrow> bytes list" where
  "fread_windows data =
     (if data = [] then [] else take 4096 data # fread_windows (drop 4096 data))"
  by pat_completeness auto
termination
  by (relation "measure length") auto

declare fread_windows.simps [simp del]

text \<open>
  The body of both read loops once the adapter is resolved: each window goes to \<open>write\<close>,
  and a negative return value is the fatal \<open>LOGE\<close> given as \<open>err\<close>.
\<close>

fun write_windows ::
  "'c codec_lib \<Rightarrow> error \<Rightarrow> 'c stream \<Rightarrow> bytes list \<Rightarrow> (error + ('c stream \<times> bytes)) option" where
  "write_windows lib err strm [] = Some (Inr (strm, []))"
| "write_windows lib err strm (w # ws) =
     (case stream_write lib strm w of
        None \<Rightarrow> None
      | Some (Inl e) \<Rightarrow> Some (Inl e)
      | Some (Inr (strm1, ret, o1)) \<Rightarrow>
          if ret < 0 then Some (Inl err)
          else
            (case write_windows lib err strm1 ws of
               None \<Rightarrow> None
             | Some (Inl e) \<Rightarrow> Some (Inl e)
             | Some (Inr (strm2, o2)) \<Rightarrow> Some (Inr (strm2, o1 @ o2))))"

text \<open>
  \<open>strm->close()\<close> at the end of both operations (its return value is dropped), followed by
  the destructor that the \<open>unique_ptr\<close> runs.
\<close>

definition close_and_delete ::
  "'c codec_lib \<Rightarrow> 'c stream \<Rightarrow> (error + bytes) option" where
  "close_and_delete lib strm =
     (case stream_close lib strm of
        None \<Rightarrow> None
      | Some (Inl e) \<Rightarrow> Some (Inl e)
      | Some (Inr (strm1, ret, o1)) \<Rightarrow>
          (case stream_dtor lib strm1 of
             None \<Rightarrow> None
           | Some (Inl e) \<Rightarrow> Some (Inl e)
           | Some (Inr (strm2, o2)) \<Rightarrow> Some (Inr (o1 @ o2))))"

text \<open>\<open>strrchr(s, c)\<close> for a character \<open>c\<close> other than NUL: the index of its last occurrence.\<close>

fun strrchr :: "string \<Rightarrow> char \<Rightarrow> nat option" where
  "strrchr [] c = None"
| "strrchr (x # xs) c =
     (case strrchr xs c of
        Some i \<Rightarrow> Some (Suc i)
      | None \<Rightarrow> if x = c then Some 0 else None)"

text \<open>
  What an operation leaves behind when it succeeds: the path the output was opened at
  (\<open>''-''\<close> is standard output), the bytes written there, and whether the input file was
  unlinked.
\<close>

record outcome =
  out_path :: string
  out_data :: bytes
  rm_in :: bool

text \<open>
  The block of \<open>decompress\<close> that settles the output path, run on the first window: the
  path and the value of \<open>rm_in\<close>.
\<close>

definition decompress_outfile ::
  "format_tables \<Rightarrow> format_t \<Rightarrow> string \<Rightarrow> string option \<Rightarrow> error + (string \<times> bool)" where
  "decompress_outfile tabs type infile outfile =
     (case outfile of
        Some path \<Rightarrow> Inr (path, False)
      | None \<Rightarrow>
          if infile = ''-'' then Inr (infile, False)
          else
            (case strrchr infile CHR ''.'' of
               None \<Rightarrow> Inl UnsupportedType
             | Some i \<Rightarrow>
                 if drop i infile \<noteq> fmt2ext tabs type then Inl UnsupportedType
                 else Inr (take i infile, True)))"

text \<open>
  \<open>decompress\<close> on an input holding \<open>data\<close>.  Opening the files is taken to succeed.  With
  an empty input the loop body never runs and \<open>strm\<close> is still null at \<open>strm->close()\<close>.
\<close>

definition decompress ::
  "'c codec_lib \<Rightarrow> format_tables \<Rightarrow> string \<Rightarrow> string option \<Rightarrow> bytes \<Rightarrow>
   (error + outcome) option" where
  "decompress lib tabs infile outfile data =
     (case fread_windows data of
        [] \<Rightarrow> Some (Inl NullStream)
      | w # ws \<Rightarrow>
          let type = check_fmt tabs w
          in if \<not> COMPRESSED tabs type then Some (Inl UnsupportedCompressedType)
             else
               (case decompress_outfile tabs type infile outfile of
                  Inl e \<Rightarrow> Some (Inl e)
                | Inr (path, rm) \<Rightarrow>
                    (case get_decoder lib type True of
                       None \<Rightarrow> Some (Inl NullStream)
                     | Some strm \<Rightarrow>
                         (case write_windows lib DecompressionError strm (w # ws) of
                            None \<Rightarrow> None
                          | Some (Inl e) \<Rightarrow> Some (Inl e)
                          | Some (Inr (strm1, o1)) \<Rightarrow>
                              (case close_and_delete lib strm1 of
                                 None \<Rightarrow> None
                               | Some (Inl e) \<Rightarrow> Some (Inl e)
                               | Some (Inr o2) \<Rightarrow>
                                   Some (Inr \<lparr>out_path = path, out_data = o1 @ o2,
                                              rm_in = rm\<rparr>))))))"

definition compress ::
  "'c codec_lib \<Rightarrow> format_tables \<Rightarrow> string \<Rightarrow> string \<Rightarrow> string option \<Rightarrow> bytes \<Rightarrow>
   (error + outcome) option" where
  "compress lib tabs method infile outfile data =
     (case name2fmt tabs method of
        None \<Rightarrow> Some (Inl UnknownMethod)
      | Some type \<Rightarrow>
          let (path, rm) =
                (case outfile of
                   None \<Rightarrow> if infile = ''-'' then (''-'', False)
                           else (infile @ fmt2ext tabs type, True)
                 | Some p \<Rightarrow> (p, False))
          in (case get_encoder lib type True of
                None \<Rightarrow> Some (Inl NullStream)
              | Some strm \<Rightarrow>
                  (case write_windows lib CompressionError strm (fread_windows data) of
                     None \<Rightarrow> None
                   | Some (Inl e) \<Rightarrow> Some (Inl e)
                   | Some (Inr (strm1, o1)) \<Rightarrow>
                       (case close_and_delete lib strm1 of
                          None \<Rightarrow> None
                        | Some (Inl e) \<Rightarrow> Some (Inl e)
                        | Some (Inr o2) \<Rightarrow>
                            Some (Inr \<lparr>out_path = path, out_data = o1 @ o2, rm_in = rm\<rparr>)))))"

section \<open>Sequences of calls and an instance of the parameters\<close>

text \<open>A caller of the legacy LZ4 encoder that hands it the buffers \<open>ws\<close> one after the other.\<close>

fun LZ4_encoder_writes ::
  "(bytes \<Rightarrow> bytes) \<Rightarrow> LZ4_encoder \<Rightarrow> bytes list \<Rightarrow> error + (LZ4_encoder \<times> bytes)" where
  "LZ4_encoder_writes hc s [] = Inr (s, [])"
| "LZ4_encoder_writes hc s (w # ws) =
     (case LZ4_encoder_write hc s w of
        Inl e \<Rightarrow> Inl e
      | Inr (s1, r, o1) \<Rightarrow>
          (case LZ4_encoder_writes hc s1 ws of
             Inl e \<Rightarrow> Inl e
           | Inr (s2, o2) \<Rightarrow> Inr (s2, o1 @ o2)))"

text \<open>
  The closed examples below need some library to run.  This one stores instead of
  compressing: every step function moves as much input to the output as fits; a legacy
  LZ4 block is one token byte carrying the literal count, then the literals (a valid LZ4
  block for fewer than 15 bytes); the frame header is 7 bytes, its sixth byte holding the
  block size identifier in bits 4 to 6.
\<close>

definition store_step :: "unit step" where
  "store_step c next_in flush avail_out = (0, c, drop avail_out next_in, take avail_out next_in)"

definition store_hc :: "bytes \<Rightarrow> bytes" where
  "store_hc src = push_bit 4 (of_nat (length src)) # src"

definition store_decompress_safe :: "bytes \<Rightarrow> nat \<Rightarrow> bytes option" where
  "store_decompress_safe src cap =
     (case src of
        [] \<Rightarrow> None
      | t # lits \<Rightarrow> if t = push_bit 4 (of_nat (length lits)) \<and> length lits \<le> cap
                    then Some lits else None)"

definition store_getFrameInfo :: "unit \<Rightarrow> bytes \<Rightarrow> unit \<times> LZ4F_blockSizeID_t option \<times> nat" where
  "store_getFrameInfo c src =
     (if length src < 7 then (c, None, 0)
      else (c, Some (let bd = unat (drop_bit 4 (src ! 5)) mod 8
                     in if bd = 5 then LZ4F_max256KB else if bd = 6 then LZ4F_max1MB
                        else if bd = 7 then LZ4F_max4MB else LZ4F_max64KB), 7))"

definition store_lib :: "unit codec_lib" where
  "store_lib =
     \<lparr>inflateInit2 = (), deflateInit2 = (), inflate = store_step, deflate = store_step,
      inflateEnd = (\<lambda>c. c), deflateEnd = (\<lambda>c. c),
      BZ2_bzDecompressInit = (), BZ2_bzCompressInit = (),
      BZ2_bzDecompress = (\<lambda>c next_in avail_out. store_step c next_in 0 avail_out),
      BZ2_bzCompress = store_step,
      BZ2_bzDecompressEnd = (\<lambda>c. c), BZ2_bzCompressEnd = (\<lambda>c. c),
      lzma_auto_decoder = (), lzma_stream_encoder = (), lzma_alone_encoder = (),
      lzma_code = store_step, lzma_end = (\<lambda>c. c),
      LZ4F_createDecompressionContext = (),
      LZ4F_getFrameInfo = store_getFrameInfo,
      LZ4F_decompress = (\<lambda>c cap src. (False, c, min cap (length src), take cap src)),
      LZ4F_createCompressionContext = (),
      LZ4F_compressBound = (\<lambda>n. n + 16),
      LZ4F_compressBegin = (\<lambda>c cap. (False, c, [0x04, 0x22, 0x4d, 0x18, 0x64, 0x70, 0xb9])),
      LZ4F_compressUpdate = (\<lambda>c cap src. (False, c, src)),
      LZ4F_compressEnd = (\<lambda>c cap. (False, c, [0, 0, 0, 0])),
      LZ4_compress_HC = store_hc,
      LZ4_decompress_safe = store_decompress_safe\<rparr>"

text \<open>The same library with an \<open>LZ4_compress_HC\<close> that fails on every call.\<close>

definition failing_hc_lib :: "unit codec_lib" where
  "failing_hc_lib = store_lib\<lparr>LZ4_compress_HC := (\<lambda>src. [])\<rparr>"

text \<open>
  An instance of the tables: gzip and the legacy LZ4 container are recognised by their
  magic, and every compressed format has an extension of the usual shape.
\<close>

definition store_ext :: "format_t \<Rightarrow> string" where
  "store_ext t =
     (case t of
        GZIP \<Rightarrow> ''.gz'' | XZ \<Rightarrow> ''.xz'' | LZMA \<Rightarrow> ''.lzma'' | BZIP2 \<Rightarrow> ''.bz2''
      | LZ4 \<Rightarrow> ''.lz4'' | LZ4_LEGACY \<Rightarrow> ''.lz4'' | _ \<Rightarrow> [])"

definition store_tables :: format_tables where
  "store_tables =
     \<lparr>check_fmt = (\<lambda>w. if take 2 w = [0x1f, 0x8b] then GZIP
                        else if take 4 w = LZ4_magic then LZ4_LEGACY else UNKNOWN),
      COMPRESSED = (\<lambda>t. t \<in> {GZIP, XZ, LZMA, BZIP2, LZ4, LZ4_LEGACY}),
      fmt2ext = store_ext,
      name2fmt = map_of [(''gzip'', GZIP), (''xz'', XZ), (''lzma'', LZMA), (''bzip2'', BZIP2),
                         (''lz4'', LZ4), (''lz4_legacy'', LZ4_LEGACY)]\<rparr>"

section \<open>Properties\<close>

subsection \<open>The legacy LZ4 encoder\<close>

lemma LZ4_encoder_loop_ok:
  "fp s \<Longrightarrow> enc_buf_off s \<le> LZ4_UNCOMPRESSED \<Longrightarrow>
   \<exists>s' r out'. LZ4_encoder_loop hc s inbuf out = Inr (s', r, out') \<and> fp s' \<and> 0 \<le> r \<and>
      enc_buf_off s' \<le> LZ4_UNCOMPRESSED \<and> in_total s' = in_total s"
proof (induction hc s inbuf out rule: LZ4_encoder_loop.induct)
  case (1 hc s inbuf out)
  show ?case
  proof (cases "enc_buf_off s + length inbuf \<ge> LZ4_UNCOMPRESSED")
    case False
    then show ?thesis using "1.prems"
      by (subst LZ4_encoder_loop.simps) simp
  next
    case True
    let ?c = "LZ4_UNCOMPRESSED - enc_buf_off s"
    let ?s1 = "s\<lparr>buf := take (enc_buf_off s) (buf s) @ take ?c inbuf\<rparr>"
    let ?w = "hc (take LZ4_UNCOMPRESSED (buf ?s1))"
    show ?thesis
    proof (cases "length ?w = 0")
      case True
      with \<open>enc_buf_off s + length inbuf \<ge> LZ4_UNCOMPRESSED\<close> "1.prems" show ?thesis
        by (subst LZ4_encoder_loop.simps) (simp add: Let_def)
    next
      case wne: False
      show ?thesis
      proof (cases "drop ?c inbuf \<noteq> []")
        case False
        with wne True "1.prems" show ?thesis
          by (subst LZ4_encoder_loop.simps) (simp add: Let_def filter_stream_write_def)
      next
        case more: True
        have ih: "\<exists>s' r out'. LZ4_encoder_loop hc (?s1\<lparr>enc_buf_off := 0\<rparr>) (drop ?c inbuf)
                    (out @ le32 (of_nat (length ?w)) @ ?w) = Inr (s', r, out') \<and> fp s' \<and> 0 \<le> r \<and>
                    enc_buf_off s' \<le> LZ4_UNCOMPRESSED \<and>
                    in_total s' = in_total (?s1\<lparr>enc_buf_off := 0\<rparr>)"
          using "1.IH"[OF True _ refl refl refl refl _ _ _ refl more,
              of "le32 (of_nat (length ?w))" ?w] wne "1.prems"
          by (simp add: filter_stream_write_def)
        with wne True more "1.prems" show ?thesis
          by (subst LZ4_encoder_loop.simps) (simp add: Let_def filter_stream_write_def)
      qed
    qed
  qed
qed

lemma LZ4_encoder_write_ok:
  assumes "fp s" "enc_buf_off s \<le> LZ4_UNCOMPRESSED"
  shows "\<exists>s' r out. LZ4_encoder_write hc s inbuf = Inr (s', r, out) \<and> fp s' \<and> 0 \<le> r \<and>
           enc_buf_off s' \<le> LZ4_UNCOMPRESSED \<and>
           in_total s' = in_total s + of_nat (length inbuf)"
proof (cases "inbuf = []")
  case True
  with assms show ?thesis
    by (simp add: LZ4_encoder_write_def filter_stream_write_def)
next
  case False
  let ?s1 = "if enc_init s then s else s\<lparr>enc_init := True\<rparr>"
  let ?o0 = "if enc_init s then [] else LZ4_magic"
  let ?s2 = "?s1\<lparr>in_total := in_total ?s1 + of_nat (length inbuf)\<rparr>"
  have w: "LZ4_encoder_write hc s inbuf = LZ4_encoder_loop hc ?s2 inbuf ?o0"
    using assms False by (simp add: LZ4_encoder_write_def filter_stream_write_def)
  have "fp ?s2" "enc_buf_off ?s2 \<le> LZ4_UNCOMPRESSED" using assms by simp_all
  from LZ4_encoder_loop_ok[OF this, of hc inbuf ?o0] show ?thesis
    unfolding w by auto
qed

lemma LZ4_encoder_writes_ok:
  "fp s \<Longrightarrow> enc_buf_off s \<le> LZ4_UNCOMPRESSED \<Longrightarrow>
   \<exists>s' out. LZ4_encoder_writes hc s ws = Inr (s', out) \<and> fp s' \<and>
      enc_buf_off s' \<le> LZ4_UNCOMPRESSED \<and>
      in_total s' = in_total s + of_nat (length (concat ws))"
proof (induction ws arbitrary: s)
  case Nil
  then show ?case by simp
next
  case (Cons w ws)
  from LZ4_encoder_write_ok[OF Cons.prems, of hc w] obtain s1 r o1 where
    w: "LZ4_encoder_write hc s w = Inr (s1, r, o1)"
    and s1: "fp s1" "enc_buf_off s1 \<le> LZ4_UNCOMPRESSED"
    and t1: "in_total s1 = in_total s + of_nat (length w)" by blast
  from Cons.IH[OF s1] obtain s2 o2 where
    ws: "LZ4_encoder_writes hc s1 ws = Inr (s2, o2)"
    and s2: "fp s2" "enc_buf_off s2 \<le> LZ4_UNCOMPRESSED"
    and t2: "in_total s2 = in_total s1 + of_nat (length (concat ws))" by blast
  show ?case using w ws s2 t1 t2 by simp
qed

lemma LZ4_encoder_finish_open:
  "fp s \<Longrightarrow> LZ4_encoder_finish hc s =
     Inr (s, (if enc_buf_off s \<noteq> 0
              then le32 (of_nat (length (hc (take (enc_buf_off s) (buf s))))) @
                   hc (take (enc_buf_off s) (buf s))
              else []) @ le32 (in_total s))"
  by (simp add: LZ4_encoder_finish_def filter_stream_write_def Let_def)

lemma LZ4_encoder_close_open:
  "fp s \<Longrightarrow> LZ4_encoder_close hc s =
     Some (Inr (s\<lparr>fp := False\<rparr>, 0,
       (if enc_buf_off s \<noteq> 0
        then le32 (of_nat (length (hc (take (enc_buf_off s) (buf s))))) @
             hc (take (enc_buf_off s) (buf s))
        else []) @ le32 (in_total s)))"
  by (simp add: LZ4_encoder_close_def cpr_stream_close_def LZ4_encoder_finish_open
      filter_stream_close_def)

text \<open>
  C6.  Whatever buffers \<open>ws\<close> are written to a fresh legacy LZ4 encoder, the writes and the
  close go through, the bytes emitted by close end with the four bytes of \<open>in_total\<close>, and
  \<open>in_total\<close> is the total number of bytes written, modulo \<open>2 ^ 32\<close>: it depends on the
  concatenation of the buffers only, not on how they were cut.
\<close>

theorem C6_trailing_total:
  "\<exists>s out s' pre.
      LZ4_encoder_writes hc (LZ4_encoder_new True) ws = Inr (s, out) \<and>
      LZ4_encoder_close hc s = Some (Inr (s', 0, pre @ le32 (in_total s))) \<and>
      in_total s = of_nat (length (concat ws)) \<and>
      unat (in_total s) = (\<Sum>w\<leftarrow>ws. length w) mod 2 ^ 32"
proof -
  have "fp (LZ4_encoder_new True)" "enc_buf_off (LZ4_encoder_new True) \<le> LZ4_UNCOMPRESSED"
    by (simp_all add: LZ4_encoder_new_def)
  from LZ4_encoder_writes_ok[OF this, of hc ws] obtain s out where
    ws: "LZ4_encoder_writes hc (LZ4_encoder_new True) ws = Inr (s, out)" and s: "fp s"
    and t: "in_total s = in_total (LZ4_encoder_new True) + of_nat (length (concat ws))"
    by blast
  have t': "in_total s = of_nat (length (concat ws))"
    using t by (simp add: LZ4_encoder_new_def)
  have u: "unat (in_total s) = (\<Sum>w\<leftarrow>ws. length w) mod 2 ^ 32"
    unfolding t' by (simp add: unat_of_nat length_concat)
  from ws LZ4_encoder_close_open[OF s, of hc] t' u show ?thesis by blast
qed

text \<open>
  C2, as the code has it.  With the sink open, close emits a final block record (4-byte
  length, then the compressed bytes) only when the leftover buffer is not empty, and in
  every case the 4-byte running total after it; close leaves \<open>fp\<close> null, so the destructor
  that follows emits nothing: the total is written once.  A new encoder given one empty
  buffer emits the magic and, at close, the total 0 alone.
\<close>

theorem C2_final_block_only_if_leftover:
  assumes "fp s"
  shows "LZ4_encoder_close hc s =
           Some (Inr (s\<lparr>fp := False\<rparr>, 0,
             (if enc_buf_off s \<noteq> 0
              then le32 (of_nat (length (hc (take (enc_buf_off s) (buf s))))) @
                   hc (take (enc_buf_off s) (buf s))
              else []) @ le32 (in_total s)))
         \<and> LZ4_encoder_dtor hc (s\<lparr>fp := False\<rparr>) = Some (Inr (s\<lparr>fp := False\<rparr>, []))
         \<and> LZ4_encoder_write hc (LZ4_encoder_new True) [] =
             Inr ((LZ4_encoder_new True)\<lparr>enc_init := True\<rparr>, 0, LZ4_magic)
         \<and> LZ4_encoder_close hc ((LZ4_encoder_new True)\<lparr>enc_init := True\<rparr>) =
             Some (Inr ((LZ4_encoder_new False)\<lparr>enc_init := True\<rparr>, 0, le32 0))"
  using assms
  by (simp add: LZ4_encoder_close_def cpr_stream_close_def LZ4_encoder_finish_open
      filter_stream_close_def LZ4_encoder_dtor_def destroy_def LZ4_encoder_write_def
      filter_stream_write_def LZ4_encoder_new_def)

theorem C2_final_block_only_if_leftover_witness:
  "fp \<lparr>fp = True, buf = [1, 2, 3], enc_init = True, enc_buf_off = 3, in_total = 3\<rparr> \<and>
   LZ4_encoder_close store_hc
       \<lparr>fp = True, buf = [1, 2, 3], enc_init = True, enc_buf_off = 3, in_total = 3\<rparr> =
     Some (Inr (\<lparr>fp = False, buf = [1, 2, 3], enc_init = True, enc_buf_off = 3, in_total = 3\<rparr>,
                0, [4, 0, 0, 0, 0x30, 1, 2, 3, 3, 0, 0, 0])) \<and>
   LZ4_encoder_dtor store_hc
       \<lparr>fp = False, buf = [1, 2, 3], enc_init = True, enc_buf_off = 3, in_total = 3\<rparr> =
     Some (Inr (\<lparr>fp = False, buf = [1, 2, 3], enc_init = True, enc_buf_off = 3, in_total = 3\<rparr>,
                []))"
  using C2_final_block_only_if_leftover
    [of "\<lparr>fp = True, buf = [1, 2, 3], enc_init = True, enc_buf_off = 3, in_total = 3\<rparr>" store_hc]
  by (simp add: store_hc_def le32_def)

text \<open>
  C2 as stated fails on an encoder that received no data, whether \<open>write\<close> was never called
  or called with an empty buffer: close then emits the four zero bytes of the total and
  no block record before them.
\<close>

theorem C2_empty_input_counterexample:
  "LZ4_encoder_close store_hc (LZ4_encoder_new True) =
     Some (Inr (LZ4_encoder_new False, 0, [0, 0, 0, 0])) \<and>
   LZ4_encoder_writes store_hc (LZ4_encoder_new True) [[]] =
     Inr ((LZ4_encoder_new True)\<lparr>enc_init := True\<rparr>, LZ4_magic) \<and>
   LZ4_encoder_close store_hc ((LZ4_encoder_new True)\<lparr>enc_init := True\<rparr>) =
     Some (Inr ((LZ4_encoder_new False)\<lparr>enc_init := True\<rparr>, 0, [0, 0, 0, 0])) \<and>
   [0, 0, 0, 0] \<noteq> le32 (of_nat (length (store_hc []))) @ store_hc [] @ le32 0"
  by (simp add: LZ4_encoder_close_def cpr_stream_close_def LZ4_encoder_finish_def
      filter_stream_close_def LZ4_encoder_new_def filter_stream_write_def le32_def
      LZ4_encoder_write_def store_hc_def)

subsection \<open>Zero-length writes and the factories\<close>

text \<open>
  C9.  For the gzip, bzip2 and LZMA/XZ adapters a \<open>write\<close> of length 0 returns 0, leaves the
  adapter (and with it the codec context) as it was and sends nothing to the sink,
  whatever the library's step functions would do: they are not called.
\<close>

theorem C9_zero_length_write_is_noop:
  "gz_write lib g [] = Some (Inr (g, 0, [])) \<and>
   bz_write lib b [] = Some (Inr (b, 0, [])) \<and>
   lzma_write lib l [] = Some (Inr (l, 0, [])) \<and>
   stream_write lib (Gz_strm g) [] = Some (Inr (Gz_strm g, 0, [])) \<and>
   stream_write lib (Bz_strm b) [] = Some (Inr (Bz_strm b, 0, [])) \<and>
   stream_write lib (Lzma_strm l) [] = Some (Inr (Lzma_strm l, 0, []))"
  by (simp add: gz_write_def bz_write_def lzma_write_def with_class_def)

text \<open>
  C10.  Both factories return an adapter for every tag, and every tag other than XZ, LZMA,
  BZIP2, LZ4 and LZ4_LEGACY (GZIP among them) gets the gzip adapter.
\<close>

theorem C10_factories_default_to_gzip:
  "get_encoder lib t f \<noteq> None \<and> get_decoder lib t f \<noteq> None \<and>
   (t \<notin> {XZ, LZMA, BZIP2, LZ4, LZ4_LEGACY} \<longrightarrow>
      get_encoder lib t f = Some (Gz_strm (gz_encoder lib f)) \<and>
      get_decoder lib t f = Some (Gz_strm (gz_decoder lib f)))"
  by (cases t) simp_all

theorem C10_factories_default_to_gzip_witness:
  "GZIP \<notin> {XZ, LZMA, BZIP2, LZ4, LZ4_LEGACY} \<and>
   get_encoder store_lib GZIP True = Some (Gz_strm (gz_encoder store_lib True)) \<and>
   get_decoder store_lib GZIP True = Some (Gz_strm (gz_decoder store_lib True)) \<and>
   OTHER 3 \<notin> {XZ, LZMA, BZIP2, LZ4, LZ4_LEGACY} \<and>
   get_encoder store_lib (OTHER 3) True = Some (Gz_strm (gz_encoder store_lib True)) \<and>
   get_decoder store_lib (OTHER 3) True = Some (Gz_strm (gz_decoder store_lib True)) \<and>
   UNKNOWN \<notin> {XZ, LZMA, BZIP2, LZ4, LZ4_LEGACY} \<and>
   get_encoder store_lib UNKNOWN True = Some (Gz_strm (gz_encoder store_lib True))"
  using C10_factories_default_to_gzip [of store_lib GZIP True]
    C10_factories_default_to_gzip [of store_lib "OTHER 3" True]
    C10_factories_default_to_gzip [of store_lib UNKNOWN True]
  by simp

subsection \<open>The legacy LZ4 decoder\<close>

lemma LZ4_decoder_loop_inv:
  "dec_buf_off s \<le> unat (block_sz s) \<Longrightarrow>
   LZ4_decoder_loop dec ret s inbuf out = Inr (s', r, out') \<Longrightarrow>
   dec_buf_off s' \<le> unat (block_sz s')"
proof (induction dec ret s inbuf out rule: LZ4_decoder_loop.induct)
  case (1 dec ret s inbuf out)
  note run = "1.prems"(2)
  show ?case
  proof (cases "block_sz s = 0")
    case True
    with "1.prems"(1) have off: "dec_buf_off s = 0" by simp
    from run True have len: "\<not> length inbuf < 4"
      by (subst (asm) LZ4_decoder_loop.simps) (auto split: if_splits)
    let ?s1 = "s\<lparr>block_sz := le32_read (take 4 inbuf)\<rparr>"
    show ?thesis
    proof (cases "drop 4 inbuf \<noteq> []")
      case more: True
      from run True len more
      have "LZ4_decoder_loop dec ret ?s1 (drop 4 inbuf) out = Inr (s', r, out')"
        by (subst (asm) LZ4_decoder_loop.simps) (simp add: Let_def)
      with "1.IH"(1)[OF True len refl refl more] off show ?thesis by simp
    next
      case False
      with run True len have "s' = ?s1"
        by (subst (asm) LZ4_decoder_loop.simps) (simp add: Let_def)
      with off show ?thesis by simp
    qed
  next
    case pending: False
    show ?thesis
    proof (cases "dec_buf_off s + length inbuf \<ge> unat (block_sz s)")
      case False
      with run pending have "dec_buf_off s' = dec_buf_off s + length inbuf"
        "block_sz s' = block_sz s"
        by (subst (asm) LZ4_decoder_loop.simps; auto split: if_splits)+
      with False show ?thesis by simp
    next
      case full: True
      let ?c = "unat (block_sz s - of_nat (dec_buf_off s))"
      let ?s1 = "s\<lparr>buffer := take (dec_buf_off s) (buffer s) @ take ?c inbuf\<rparr>"
      from run pending full have c1: "\<not> ?c > length inbuf"
        and c2: "\<not> dec_buf_off s + ?c > LZ4_COMPRESSED"
        by (subst (asm) LZ4_decoder_loop.simps; auto simp: Let_def split: if_splits)+
      show ?thesis
      proof (cases "dec (take (unat (block_sz s)) (buffer ?s1)) LZ4_UNCOMPRESSED")
        case None
        with run pending full c1 c2 have "s' = ?s1"
          by (subst (asm) LZ4_decoder_loop.simps) (simp add: Let_def)
        with "1.prems"(1) show ?thesis by simp
      next
        case (Some w)
        from run pending full c1 c2 Some have fpo: "fp s"
          by (subst (asm) LZ4_decoder_loop.simps)
            (auto simp: Let_def filter_stream_write_def split: if_splits)
        let ?s2 = "?s1\<lparr>dec_buf_off := 0, block_sz := 0\<rparr>"
        show ?thesis
        proof (cases "drop ?c inbuf \<noteq> []")
          case False
          with run pending full c1 c2 Some fpo have "s' = ?s2"
            by (subst (asm) LZ4_decoder_loop.simps)
              (simp add: Let_def filter_stream_write_def)
          then show ?thesis by simp
        next
          case more: True
          from run pending full c1 c2 Some fpo more
          have "LZ4_decoder_loop dec ret ?s2 (drop ?c inbuf) (out @ w) = Inr (s', r, out')"
            by (subst (asm) LZ4_decoder_loop.simps)
              (simp add: Let_def filter_stream_write_def)
          moreover have "filter_stream_write ?s1 w = Inr w"
            using fpo by (simp add: filter_stream_write_def)
          ultimately show ?thesis
            using "1.IH"(2)[OF pending full refl c1 c2 refl refl Some _ refl more, of w]
            by simp
        qed
      qed
    qed
  qed
qed

lemma LZ4_decoder_write_inv:
  assumes "dec_buf_off s \<le> unat (block_sz s)"
    and "LZ4_decoder_write dec s inbuf = Inr (s', r, out)"
  shows "dec_buf_off s' \<le> unat (block_sz s')"
proof (cases "dec_init s")
  case True
  with assms(2) have "LZ4_decoder_loop dec (int (length inbuf)) s inbuf [] = Inr (s', r, out)"
    by (simp add: LZ4_decoder_write_def)
  from LZ4_decoder_loop_inv[OF assms(1) this] show ?thesis .
next
  case False
  with assms(2)
  have "LZ4_decoder_loop dec (int (length inbuf)) (s\<lparr>dec_init := True\<rparr>) (drop 4 inbuf) [] =
          Inr (s', r, out)"
    by (simp add: LZ4_decoder_write_def split: if_splits)
  from LZ4_decoder_loop_inv[OF _ this] assms(1) show ?thesis by simp
qed

lemma unat_block_sz_minus:
  assumes "dec_buf_off s \<le> unat (block_sz s)"
  shows "unat (block_sz s - of_nat (dec_buf_off s)) = unat (block_sz s) - dec_buf_off s"
proof -
  have "unat (block_sz s) < 2 ^ 32"
    using unsigned_less[of "block_sz s", where ?'a = nat] by simp
  with assms have small: "dec_buf_off s mod 4294967296 = dec_buf_off s" by simp
  show ?thesis
    using assms by (simp add: unat_sub_if' unat_of_nat small)
qed

lemma LZ4_decoder_loop_prefix:
  assumes "block_sz s = 0" "length p = 4"
  shows "LZ4_decoder_loop dec ret s (p @ xs) out =
           (if xs = [] then Inr (s\<lparr>block_sz := le32_read p\<rparr>, ret, out)
            else LZ4_decoder_loop dec ret (s\<lparr>block_sz := le32_read p\<rparr>) xs out)"
  using assms by (subst LZ4_decoder_loop.simps) (simp add: Let_def)

lemma LZ4_decoder_loop_complete:
  assumes "fp s" "block_sz s \<noteq> 0" "dec_buf_off s \<le> unat (block_sz s)"
    and "unat (block_sz s) \<le> LZ4_COMPRESSED"
    and "length rest = unat (block_sz s) - dec_buf_off s"
    and "dec (take (dec_buf_off s) (buffer s) @ rest) LZ4_UNCOMPRESSED = Some w"
  shows "LZ4_decoder_loop dec ret s (rest @ xs) out =
           (if xs = []
            then Inr (s\<lparr>buffer := take (dec_buf_off s) (buffer s) @ rest,
                        dec_buf_off := 0, block_sz := 0\<rparr>, ret, out @ w)
            else LZ4_decoder_loop dec ret
                   (s\<lparr>buffer := take (dec_buf_off s) (buffer s) @ rest,
                      dec_buf_off := 0, block_sz := 0\<rparr>) xs (out @ w))"
proof -
  note c = unat_block_sz_minus[OF assms(3)]
  have full: "take (unat (block_sz s)) (take (dec_buf_off s) (buffer s) @ rest) =
                take (dec_buf_off s) (buffer s) @ rest"
    using assms(3,5) by simp
  show ?thesis
    using assms(1-5)
    by (subst LZ4_decoder_loop.simps)
      (simp add: Let_def c full assms(6) filter_stream_write_def)
qed

lemma LZ4_decoder_loop_accumulate:
  assumes "block_sz s \<noteq> 0" "dec_buf_off s + length xs < unat (block_sz s)"
    and "dec_buf_off s + length xs \<le> LZ4_COMPRESSED"
  shows "LZ4_decoder_loop dec ret s xs out =
           Inr (s\<lparr>buffer := take (dec_buf_off s) (buffer s) @ xs,
                  dec_buf_off := dec_buf_off s + length xs\<rparr>, ret, out)"
  using assms by (subst LZ4_decoder_loop.simps) simp

lemma LZ4_decoder_loop_records:
  assumes "fp s" "block_sz s = 0" "dec_buf_off s = 0"
    and "\<forall>(p, b) \<in> set records. length p = 4 \<and> unat (le32_read p) = length b \<and>
           length b \<le> LZ4_COMPRESSED \<and> (b \<noteq> [] \<longrightarrow> dec b LZ4_UNCOMPRESSED \<noteq> None)"
    and "(tp = [] \<and> part = []) \<or>
         (length tp = 4 \<and> le32_read tp \<noteq> 0 \<and> length part < unat (le32_read tp) \<and>
          length part \<le> LZ4_COMPRESSED)"
    and "records \<noteq> [] \<or> tp \<noteq> []"
  shows "\<exists>s'. LZ4_decoder_loop dec ret s (concat (map (\<lambda>(p, b). p @ b) records) @ tp @ part) out =
                 Inr (s', ret,
                      out @ concat (map (\<lambda>(p, b). if b = [] then []
                                                  else the (dec b LZ4_UNCOMPRESSED)) records)) \<and>
               s' = s\<lparr>buffer := buffer s', block_sz := (if tp = [] then 0 else le32_read tp),
                      dec_buf_off := length part\<rparr> \<and>
               take (length part) (buffer s') = part"
  using assms
proof (induction records arbitrary: s out)
  case Nil
  then have tp: "length tp = 4" "le32_read tp \<noteq> 0" "length part < unat (le32_read tp)"
    "length part \<le> LZ4_COMPRESSED" by auto
  from tp(1) have tpne: "tp \<noteq> []" by auto
  let ?s1 = "s\<lparr>block_sz := le32_read tp\<rparr>"
  show ?case
  proof (cases "part = []")
    case True
    with tp tpne Nil.prems(2,3) show ?thesis
      by (simp add: LZ4_decoder_loop_prefix[where xs = "[]", simplified])
  next
    case False
    have "LZ4_decoder_loop dec ret ?s1 part out =
            Inr (?s1\<lparr>buffer := take (dec_buf_off ?s1) (buffer ?s1) @ part,
                     dec_buf_off := dec_buf_off ?s1 + length part\<rparr>, ret, out)"
      using tp Nil.prems(3) by (intro LZ4_decoder_loop_accumulate) simp_all
    with False tp tpne Nil.prems(2,3) show ?thesis
      by (simp add: LZ4_decoder_loop_prefix)
  qed
next
  case (Cons r records)
  obtain p b where r: "r = (p, b)" by (cases r)
  from Cons.prems(4) r have
    pb: "length p = 4" "unat (le32_read p) = length b" "length b \<le> LZ4_COMPRESSED"
    and wb: "b \<noteq> [] \<longrightarrow> dec b LZ4_UNCOMPRESSED \<noteq> None" by auto
  have rs: "\<forall>(p, b) \<in> set records. length p = 4 \<and> unat (le32_read p) = length b \<and>
         length b \<le> LZ4_COMPRESSED \<and> (b \<noteq> [] \<longrightarrow> dec b LZ4_UNCOMPRESSED \<noteq> None)"
    using Cons.prems(4) by simp
  let ?rest = "concat (map (\<lambda>(p, b). p @ b) records) @ tp @ part"
  let ?outs = "concat (map (\<lambda>(p, b). if b = [] then [] else the (dec b LZ4_UNCOMPRESSED)) records)"
  let ?s1 = "s\<lparr>block_sz := le32_read p\<rparr>"
  have empty_rest: "records = [] \<and> tp = [] \<and> part = []" if "?rest = []"
  proof -
    have "records = []"
    proof (cases records)
      case Nil
      then show ?thesis .
    next
      case (Cons q qs)
      with rs that show ?thesis by (cases q) auto
    qed
    with that show ?thesis by simp
  qed
  show ?case
  proof (cases "b = []")
    case True
    with pb(2) have z: "le32_read p = 0" by (simp add: unat_eq_0)
    have s1: "?s1 = s" using z Cons.prems(2) by simp
    have step: "LZ4_decoder_loop dec ret s (p @ b @ ?rest) out =
                  (if ?rest = [] then Inr (s, ret, out)
                   else LZ4_decoder_loop dec ret s ?rest out)"
      using pb(1) Cons.prems(2) True s1 by (simp add: LZ4_decoder_loop_prefix)
    show ?thesis
    proof (cases "?rest = []")
      case e: True
      from empty_rest[OF e] step e True Cons.prems(2,3) show ?thesis
        by (simp add: r)
    next
      case ne: False
      then have "records \<noteq> [] \<or> tp \<noteq> []" using Cons.prems(5) by auto
      from Cons.IH[of s out, OF Cons.prems(1,2,3) rs Cons.prems(5) this]
      obtain s' where
        "LZ4_decoder_loop dec ret s ?rest out = Inr (s', ret, out @ ?outs)"
        "s' = s\<lparr>buffer := buffer s', block_sz := (if tp = [] then 0 else le32_read tp),
                  dec_buf_off := length part\<rparr>"
        "take (length part) (buffer s') = part" by auto
      with step ne True show ?thesis by (auto simp: r)
    qed
  next
    case bne: False
    with wb obtain w where w: "dec b LZ4_UNCOMPRESSED = Some w" by auto
    let ?s2 = "?s1\<lparr>buffer := take (dec_buf_off ?s1) (buffer ?s1) @ b,
                   dec_buf_off := 0, block_sz := 0\<rparr>"
    have nz: "le32_read p \<noteq> 0" using pb(2) bne by (auto simp: unat_eq_0[symmetric] simp del: unat_eq_0)
    have step1: "LZ4_decoder_loop dec ret s (p @ b @ ?rest) out =
                   LZ4_decoder_loop dec ret ?s1 (b @ ?rest) out"
      using pb bne Cons.prems(2) by (simp add: LZ4_decoder_loop_prefix)
    have step2: "LZ4_decoder_loop dec ret ?s1 (b @ ?rest) out =
                   (if ?rest = [] then Inr (?s2, ret, out @ w)
                    else LZ4_decoder_loop dec ret ?s2 ?rest (out @ w))"
      using pb nz w Cons.prems(1,3) by (intro LZ4_decoder_loop_complete) simp_all
    show ?thesis
    proof (cases "?rest = []")
      case e: True
      from empty_rest[OF e] step1 step2 e w bne Cons.prems(3) show ?thesis
        by (simp add: r)
    next
      case ne: False
      then have "records \<noteq> [] \<or> tp \<noteq> []" using Cons.prems(5) by auto
      from Cons.IH[of ?s2 "out @ w", OF _ _ _ rs Cons.prems(5) this] Cons.prems(1)
      obtain s' where
        l: "LZ4_decoder_loop dec ret ?s2 ?rest (out @ w) = Inr (s', ret, (out @ w) @ ?outs)"
        and s': "s' = ?s2\<lparr>buffer := buffer s',
                          block_sz := (if tp = [] then 0 else le32_read tp),
                          dec_buf_off := length part\<rparr>"
        and t: "take (length part) (buffer s') = part" by auto
      have s'': "s' = s\<lparr>buffer := buffer s', block_sz := (if tp = [] then 0 else le32_read tp),
                        dec_buf_off := length part\<rparr>"
        by (subst s') simp
      from step1 step2 ne l w t s'' bne show ?thesis
        by (auto simp: r)
    qed
  qed
qed

lemma LZ4_decoder_write_accumulate:
  assumes "dec_init s" "block_sz s \<noteq> 0" "dec_buf_off s + length inbuf < unat (block_sz s)"
    and "dec_buf_off s + length inbuf \<le> LZ4_COMPRESSED"
  shows "LZ4_decoder_write dec s inbuf =
           Inr (s\<lparr>buffer := take (dec_buf_off s) (buffer s) @ inbuf,
                  dec_buf_off := dec_buf_off s + length inbuf\<rparr>, int (length inbuf), [])"
  using assms by (simp add: LZ4_decoder_write_def LZ4_decoder_loop_accumulate)

lemma LZ4_decoder_write_records:
  assumes "fp s" "dec_buf_off s \<le> unat (block_sz s)" "unat (block_sz s) \<le> LZ4_COMPRESSED"
    and "length skip = (if dec_init s then 0 else 4)"
    and "length rest = unat (block_sz s) - dec_buf_off s"
    and "if block_sz s = 0 then w = [] \<and> (records \<noteq> [] \<or> tp \<noteq> [])
         else dec (take (dec_buf_off s) (buffer s) @ rest) LZ4_UNCOMPRESSED = Some w"
    and "\<forall>(p, b) \<in> set records. length p = 4 \<and> unat (le32_read p) = length b \<and>
           length b \<le> LZ4_COMPRESSED \<and> (b \<noteq> [] \<longrightarrow> dec b LZ4_UNCOMPRESSED \<noteq> None)"
    and "(tp = [] \<and> part = []) \<or>
         (length tp = 4 \<and> le32_read tp \<noteq> 0 \<and> length part < unat (le32_read tp) \<and>
          length part \<le> LZ4_COMPRESSED)"
    and "inbuf = skip @ rest @ concat (map (\<lambda>(p, b). p @ b) records) @ tp @ part"
  shows "\<exists>s'. LZ4_decoder_write dec s inbuf =
                 Inr (s', int (length inbuf),
                      w @ concat (map (\<lambda>(p, b). if b = [] then []
                                                else the (dec b LZ4_UNCOMPRESSED)) records)) \<and>
               s' = s\<lparr>buffer := buffer s', dec_init := True,
                      block_sz := (if tp = [] then 0 else le32_read tp),
                      dec_buf_off := length part\<rparr> \<and>
               take (length part) (buffer s') = part"
proof -
  let ?stream = "concat (map (\<lambda>(p, b). p @ b) records) @ tp @ part"
  let ?outs = "concat (map (\<lambda>(p, b). if b = [] then [] else the (dec b LZ4_UNCOMPRESSED)) records)"
  let ?s1 = "s\<lparr>dec_init := True\<rparr>"
  let ?ret = "int (length inbuf)"
  have wr: "LZ4_decoder_write dec s inbuf = LZ4_decoder_loop dec ?ret ?s1 (rest @ ?stream) []"
  proof (cases "dec_init s")
    case True
    then have eq: "?s1 = s" by simp
    show ?thesis unfolding eq using True assms(4,9) by (simp add: LZ4_decoder_write_def)
  next
    case False
    with assms(4,9) show ?thesis by (simp add: LZ4_decoder_write_def)
  qed
  show ?thesis
  proof (cases "block_sz s = 0")
    case True
    with assms(2,5,6) have z: "dec_buf_off s = 0" "rest = []" "w = []"
      and ne: "records \<noteq> [] \<or> tp \<noteq> []" by auto
    from LZ4_decoder_loop_records[of ?s1 records dec tp part ?ret "[]", OF _ _ _ assms(7,8) ne]
      assms(1) True z
    obtain s' where
      l: "LZ4_decoder_loop dec ?ret ?s1 ?stream [] = Inr (s', ?ret, ?outs)"
      and s': "s' = ?s1\<lparr>buffer := buffer s',
                        block_sz := (if tp = [] then 0 else le32_read tp),
                        dec_buf_off := length part\<rparr>"
      and t: "take (length part) (buffer s') = part" by auto
    have "s' = s\<lparr>buffer := buffer s', dec_init := True,
                  block_sz := (if tp = [] then 0 else le32_read tp),
                  dec_buf_off := length part\<rparr>"
      by (subst s') simp
    with wr z l t show ?thesis by auto
  next
    case False
    with assms(6) have w: "dec (take (dec_buf_off s) (buffer s) @ rest) LZ4_UNCOMPRESSED = Some w"
      by simp
    let ?s2 = "?s1\<lparr>buffer := take (dec_buf_off ?s1) (buffer ?s1) @ rest,
                   dec_buf_off := 0, block_sz := 0\<rparr>"
    have step: "LZ4_decoder_loop dec ?ret ?s1 (rest @ ?stream) [] =
                  (if ?stream = [] then Inr (?s2, ?ret, [] @ w)
                   else LZ4_decoder_loop dec ?ret ?s2 ?stream ([] @ w))"
      using assms(1,2,3,5) False w by (intro LZ4_decoder_loop_complete) simp_all
    show ?thesis
    proof (cases "?stream = []")
      case True
      then have "tp = []" "part = []" "?outs = []" by auto
      with wr step True show ?thesis by simp
    next
      case ne: False
      have "records \<noteq> [] \<or> tp \<noteq> []"
      proof (rule ccontr)
        assume "\<not> (records \<noteq> [] \<or> tp \<noteq> [])"
        with assms(8) ne show False by auto
      qed
      from LZ4_decoder_loop_records[of ?s2 records dec tp part ?ret "[] @ w",
          OF _ _ _ assms(7,8) this] assms(1)
      obtain s' where
        l: "LZ4_decoder_loop dec ?ret ?s2 ?stream ([] @ w) = Inr (s', ?ret, ([] @ w) @ ?outs)"
        and s': "s' = ?s2\<lparr>buffer := buffer s',
                          block_sz := (if tp = [] then 0 else le32_read tp),
                          dec_buf_off := length part\<rparr>"
        and t: "take (length part) (buffer s') = part" by auto
      have "s' = s\<lparr>buffer := buffer s', dec_init := True,
                    block_sz := (if tp = [] then 0 else le32_read tp),
                    dec_buf_off := length part\<rparr>"
        by (subst s') simp
      with wr step ne l t show ?thesis by auto
    qed
  qed
qed

lemma write_windows_LZ4_dec_block:
  assumes "dec_init s" "fp s" "block_sz s \<noteq> 0" "unat (block_sz s) \<le> LZ4_COMPRESSED"
    and "rest \<noteq> []"
    and "dec_buf_off s + length (concat cs) + length rest = unat (block_sz s)"
    and "LZ4_decompress_safe lib (take (dec_buf_off s) (buffer s) @ concat cs @ rest)
           LZ4_UNCOMPRESSED = Some w"
  shows "\<exists>s'. write_windows lib DecompressionError (LZ4_dec s) (cs @ [rest]) =
                 Some (Inr (LZ4_dec s', w)) \<and>
               fp s' \<and> dec_init s' \<and> block_sz s' = 0 \<and> dec_buf_off s' = 0"
  using assms
proof (induction cs arbitrary: s)
  case Nil
  have inv: "dec_buf_off s \<le> unat (block_sz s)" using Nil.prems(6) by simp
  let ?s2 = "s\<lparr>buffer := take (dec_buf_off s) (buffer s) @ rest,
                dec_buf_off := 0, block_sz := 0\<rparr>"
  have len: "length rest = unat (block_sz s) - dec_buf_off s" using Nil.prems(6) by simp
  have w': "LZ4_decompress_safe lib (take (dec_buf_off s) (buffer s) @ rest)
              LZ4_UNCOMPRESSED = Some w"
    using Nil.prems(7) by simp
  from LZ4_decoder_loop_complete
      [where s = s and dec = "LZ4_decompress_safe lib" and rest = rest and w = w
         and xs = "[]" and out = "[]" and ret = "int (length rest)",
       OF Nil.prems(2) Nil.prems(3) inv Nil.prems(4) len w']
  have "LZ4_decoder_loop (LZ4_decompress_safe lib) (int (length rest)) s rest [] =
          Inr (?s2, int (length rest), w)"
    by simp
  with Nil.prems(1)
  have "LZ4_decoder_write (LZ4_decompress_safe lib) s rest = Inr (?s2, int (length rest), w)"
    by (simp add: LZ4_decoder_write_def)
  with Nil.prems(1,2) show ?case by (simp add: with_class_def)
next
  case (Cons c cs)
  let ?s1 = "s\<lparr>buffer := take (dec_buf_off s) (buffer s) @ c,
                dec_buf_off := dec_buf_off s + length c\<rparr>"
  have lt: "dec_buf_off s + length c < unat (block_sz s)"
    using Cons.prems(5,6) by (cases rest) simp_all
  have w1: "LZ4_decoder_write (LZ4_decompress_safe lib) s c = Inr (?s1, int (length c), [])"
    using Cons.prems(1,3,4) lt by (intro LZ4_decoder_write_accumulate) simp_all
  have acc: "take (dec_buf_off ?s1) (buffer ?s1) = take (dec_buf_off s) (buffer s) @ c"
    by simp
  have "\<exists>s'. write_windows lib DecompressionError (LZ4_dec ?s1) (cs @ [rest]) =
                 Some (Inr (LZ4_dec s', w)) \<and>
               fp s' \<and> dec_init s' \<and> block_sz s' = 0 \<and> dec_buf_off s' = 0"
  proof (rule Cons.IH)
    show "dec_init ?s1" "fp ?s1" "block_sz ?s1 \<noteq> 0" "unat (block_sz ?s1) \<le> LZ4_COMPRESSED"
      "rest \<noteq> []"
      using Cons.prems(1-5) by simp_all
    show "dec_buf_off ?s1 + length (concat cs) + length rest = unat (block_sz ?s1)"
      using Cons.prems(6) by simp
    show "LZ4_decompress_safe lib (take (dec_buf_off ?s1) (buffer ?s1) @ concat cs @ rest)
            LZ4_UNCOMPRESSED = Some w"
      using Cons.prems(7) unfolding acc by simp
  qed
  with w1 show ?case by (auto simp: with_class_def)
qed

text \<open>
  C8.  \<open>buf_off \<le> block_sz\<close> holds for a new decoder and is kept by every \<open>write\<close> that
  returns (with a byte count or with \<open>-1\<close>).  Under that invariant:

  A call whose bytes do not reach the pending block length appends them to the
  accumulator and forwards nothing.

  A call made of: the 4 magic bytes \<open>skip\<close> if it is the first call; the bytes \<open>rest\<close> that
  complete the pending block, if one is pending; any number of whole records, each a
  4-byte prefix \<open>p\<close> followed by the \<open>b\<close> bytes it announces; and last, possibly, a prefix \<open>tp\<close>
  with the first bytes \<open>part\<close> of its block.  Every block that fills up, accumulated over
  earlier calls or contained in this one, is decompressed by one call of the library on
  exactly its bytes, and the outputs go to the sink in order.  Afterwards the accumulator
  is empty with no length pending (the next 4 bytes are read as a length), unless the
  call ended in \<open>tp\<close> and \<open>part\<close>: then that length is pending and \<open>part\<close> is what is accumulated.

  A pending block whose remaining bytes arrive over any number of calls, \<open>calls\<close> and then
  \<open>last_call\<close>, through the read loop: nothing is forwarded before the last call, which
  forwards the decompression of everything accumulated, and the accumulator is reset.
\<close>

theorem C8_fill_offset_invariant:
  "dec_buf_off (LZ4_decoder_new f) \<le> unat (block_sz (LZ4_decoder_new f)) \<and>
   (dec_buf_off s \<le> unat (block_sz s) \<longrightarrow>
      (\<forall>s' r out. LZ4_decoder_write dec s inbuf = Inr (s', r, out) \<longrightarrow>
         dec_buf_off s' \<le> unat (block_sz s')) \<and>
      (dec_init s \<and> block_sz s \<noteq> 0 \<and> dec_buf_off s + length inbuf < unat (block_sz s) \<and>
       dec_buf_off s + length inbuf \<le> LZ4_COMPRESSED \<longrightarrow>
         LZ4_decoder_write dec s inbuf =
           Inr (s\<lparr>buffer := take (dec_buf_off s) (buffer s) @ inbuf,
                  dec_buf_off := dec_buf_off s + length inbuf\<rparr>, int (length inbuf), [])) \<and>
      (fp s \<and> unat (block_sz s) \<le> LZ4_COMPRESSED \<and>
       length skip = (if dec_init s then 0 else 4) \<and>
       length rest = unat (block_sz s) - dec_buf_off s \<and>
       (if block_sz s = 0 then w = [] \<and> (records \<noteq> [] \<or> tp \<noteq> [])
        else dec (take (dec_buf_off s) (buffer s) @ rest) LZ4_UNCOMPRESSED = Some w) \<and>
       (\<forall>(p, b) \<in> set records. length p = 4 \<and> unat (le32_read p) = length b \<and>
           length b \<le> LZ4_COMPRESSED \<and> (b \<noteq> [] \<longrightarrow> dec b LZ4_UNCOMPRESSED \<noteq> None)) \<and>
       ((tp = [] \<and> part = []) \<or>
        (length tp = 4 \<and> le32_read tp \<noteq> 0 \<and> length part < unat (le32_read tp) \<and>
         length part \<le> LZ4_COMPRESSED)) \<and>
       inbuf = skip @ rest @ concat (map (\<lambda>(p, b). p @ b) records) @ tp @ part \<longrightarrow>
         (\<exists>s'. LZ4_decoder_write dec s inbuf =
                  Inr (s', int (length inbuf),
                       w @ concat (map (\<lambda>(p, b). if b = [] then []
                                                 else the (dec b LZ4_UNCOMPRESSED)) records)) \<and>
                fp s' \<and> dec_init s' \<and>
                block_sz s' = (if tp = [] then 0 else le32_read tp) \<and>
                dec_buf_off s' = length part \<and>
                take (length part) (buffer s') = part)) \<and>
      (dec_init s \<and> fp s \<and> block_sz s \<noteq> 0 \<and> unat (block_sz s) \<le> LZ4_COMPRESSED \<and>
       last_call \<noteq> [] \<and>
       dec_buf_off s + length (concat calls) + length last_call = unat (block_sz s) \<and>
       LZ4_decompress_safe lib (take (dec_buf_off s) (buffer s) @ concat calls @ last_call)
         LZ4_UNCOMPRESSED = Some v \<longrightarrow>
         (\<exists>s'. write_windows lib DecompressionError (LZ4_dec s) (calls @ [last_call]) =
                  Some (Inr (LZ4_dec s', v)) \<and>
                fp s' \<and> dec_init s' \<and> block_sz s' = 0 \<and> dec_buf_off s' = 0)))"
proof (intro conjI impI allI)
  show "dec_buf_off (LZ4_decoder_new f) \<le> unat (block_sz (LZ4_decoder_new f))"
    by (simp add: LZ4_decoder_new_def)
next
  fix s' r out
  assume "dec_buf_off s \<le> unat (block_sz s)" "LZ4_decoder_write dec s inbuf = Inr (s', r, out)"
  then show "dec_buf_off s' \<le> unat (block_sz s')" by (rule LZ4_decoder_write_inv)
next
  assume "dec_init s \<and> block_sz s \<noteq> 0 \<and> dec_buf_off s + length inbuf < unat (block_sz s) \<and>
       dec_buf_off s + length inbuf \<le> LZ4_COMPRESSED"
  then show "LZ4_decoder_write dec s inbuf =
           Inr (s\<lparr>buffer := take (dec_buf_off s) (buffer s) @ inbuf,
                  dec_buf_off := dec_buf_off s + length inbuf\<rparr>, int (length inbuf), [])"
    using LZ4_decoder_write_accumulate[of s inbuf dec] by blast
next
  assume inv: "dec_buf_off s \<le> unat (block_sz s)"
    and h: "fp s \<and> unat (block_sz s) \<le> LZ4_COMPRESSED \<and>
       length skip = (if dec_init s then 0 else 4) \<and>
       length rest = unat (block_sz s) - dec_buf_off s \<and>
       (if block_sz s = 0 then w = [] \<and> (records \<noteq> [] \<or> tp \<noteq> [])
        else dec (take (dec_buf_off s) (buffer s) @ rest) LZ4_UNCOMPRESSED = Some w) \<and>
       (\<forall>(p, b) \<in> set records. length p = 4 \<and> unat (le32_read p) = length b \<and>
           length b \<le> LZ4_COMPRESSED \<and> (b \<noteq> [] \<longrightarrow> dec b LZ4_UNCOMPRESSED \<noteq> None)) \<and>
       ((tp = [] \<and> part = []) \<or>
        (length tp = 4 \<and> le32_read tp \<noteq> 0 \<and> length part < unat (le32_read tp) \<and>
         length part \<le> LZ4_COMPRESSED)) \<and>
       inbuf = skip @ rest @ concat (map (\<lambda>(p, b). p @ b) records) @ tp @ part"
  note h1 = h[THEN conjunct1]
    and h3 = h[THEN conjunct2, THEN conjunct1]
    and h4 = h[THEN conjunct2, THEN conjunct2, THEN conjunct1]
    and h5 = h[THEN conjunct2, THEN conjunct2, THEN conjunct2, THEN conjunct1]
    and h6 = h[THEN conjunct2, THEN conjunct2, THEN conjunct2, THEN conjunct2, THEN conjunct1]
    and h7 = h[THEN conjunct2, THEN conjunct2, THEN conjunct2, THEN conjunct2, THEN conjunct2,
               THEN conjunct1]
    and h8 = h[THEN conjunct2, THEN conjunct2, THEN conjunct2, THEN conjunct2, THEN conjunct2,
               THEN conjunct2, THEN conjunct1]
    and h9 = h[THEN conjunct2, THEN conjunct2, THEN conjunct2, THEN conjunct2, THEN conjunct2,
               THEN conjunct2, THEN conjunct2]
  from LZ4_decoder_write_records
    [where s = s and dec = dec and skip = skip and rest = rest and w = w and records = records
       and tp = tp and part = part and inbuf = inbuf, OF h1 inv h3 h4 h5 h6 h7 h8 h9]
  obtain s' where
    l: "LZ4_decoder_write dec s inbuf =
          Inr (s', int (length inbuf),
               w @ concat (map (\<lambda>(p, b). if b = [] then []
                                         else the (dec b LZ4_UNCOMPRESSED)) records))"
    and e: "s' = s\<lparr>buffer := buffer s', dec_init := True,
                    block_sz := (if tp = [] then 0 else le32_read tp),
                    dec_buf_off := length part\<rparr>"
    and t: "take (length part) (buffer s') = part" by blast
  have "fp s' = fp s" "dec_init s'" "block_sz s' = (if tp = [] then 0 else le32_read tp)"
    "dec_buf_off s' = length part"
    by (subst e, simp)+
  with l t h1
  show "\<exists>s'. LZ4_decoder_write dec s inbuf =
                  Inr (s', int (length inbuf),
                       w @ concat (map (\<lambda>(p, b). if b = [] then []
                                                 else the (dec b LZ4_UNCOMPRESSED)) records)) \<and>
                fp s' \<and> dec_init s' \<and>
                block_sz s' = (if tp = [] then 0 else le32_read tp) \<and>
                dec_buf_off s' = length part \<and>
                take (length part) (buffer s') = part"
    by blast
next
  assume d: "dec_init s \<and> fp s \<and> block_sz s \<noteq> 0 \<and> unat (block_sz s) \<le> LZ4_COMPRESSED \<and>
       last_call \<noteq> [] \<and>
       dec_buf_off s + length (concat calls) + length last_call = unat (block_sz s) \<and>
       LZ4_decompress_safe lib (take (dec_buf_off s) (buffer s) @ concat calls @ last_call)
         LZ4_UNCOMPRESSED = Some v"
  note d1 = d[THEN conjunct1]
    and d2 = d[THEN conjunct2, THEN conjunct1]
    and d3 = d[THEN conjunct2, THEN conjunct2, THEN conjunct1]
    and d4 = d[THEN conjunct2, THEN conjunct2, THEN conjunct2, THEN conjunct1]
    and d5 = d[THEN conjunct2, THEN conjunct2, THEN conjunct2, THEN conjunct2, THEN conjunct1]
    and d6 = d[THEN conjunct2, THEN conjunct2, THEN conjunct2, THEN conjunct2, THEN conjunct2,
               THEN conjunct1]
    and d7 = d[THEN conjunct2, THEN conjunct2, THEN conjunct2, THEN conjunct2, THEN conjunct2,
               THEN conjunct2]
  show "\<exists>s'. write_windows lib DecompressionError (LZ4_dec s) (calls @ [last_call]) =
                  Some (Inr (LZ4_dec s', v)) \<and>
                fp s' \<and> dec_init s' \<and> block_sz s' = 0 \<and> dec_buf_off s' = 0"
    by (rule write_windows_LZ4_dec_block
        [where s = s and lib = lib and cs = calls and rest = last_call and w = v,
         OF d1 d2 d3 d4 d5 d6 d7])
qed

lemma store_decoder_first_call:
  "LZ4_decoder_write store_decompress_safe (LZ4_decoder_new True)
       [0x02, 0x21, 0x4c, 0x18, 3, 0, 0, 0, 0x20, 7] =
     Inr (\<lparr>fp = True, buffer = [0x20, 7], dec_init = True, block_sz = 3, dec_buf_off = 2\<rparr>,
          10, [])"
  by (simp add: LZ4_decoder_write_def LZ4_decoder_new_def LZ4_decoder_loop.simps le32_read_def
      Let_def LZ4_COMPRESSED_def LZ4_COMPRESSBOUND_def LZ4_UNCOMPRESSED_def)

lemma store_decoder_second_call:
  "LZ4_decoder_write store_decompress_safe
       \<lparr>fp = True, buffer = [0x20, 7], dec_init = True, block_sz = 3, dec_buf_off = 2\<rparr>
       [9, 2, 0, 0, 0, 0x10, 5, 3, 0, 0, 0] =
     Inr (\<lparr>fp = True, buffer = [0x10, 5], dec_init = True, block_sz = 3, dec_buf_off = 0\<rparr>,
          11, [7, 9, 5])"
  by (simp add: LZ4_decoder_write_def LZ4_decoder_loop.simps le32_read_def
      Let_def store_decompress_safe_def filter_stream_write_def
      LZ4_COMPRESSED_def LZ4_COMPRESSBOUND_def LZ4_UNCOMPRESSED_def)


lemma store_decoder_three_calls:
  "write_windows store_lib DecompressionError
       (LZ4_dec \<lparr>fp = True, buffer = [], dec_init = True, block_sz = 3, dec_buf_off = 0\<rparr>)
       [[0x20], [7], [9]] =
     Some (Inr (LZ4_dec \<lparr>fp = True, buffer = [0x20, 7, 9], dec_init = True, block_sz = 0,
                         dec_buf_off = 0\<rparr>, [7, 9]))"
  by (simp add: with_class_def LZ4_decoder_write_def LZ4_decoder_loop.simps Let_def
      store_lib_def store_decompress_safe_def filter_stream_write_def
      LZ4_COMPRESSED_def LZ4_COMPRESSBOUND_def LZ4_UNCOMPRESSED_def)

theorem C8_fill_offset_invariant_witness:
  "dec_buf_off (LZ4_decoder_new True) \<le> unat (block_sz (LZ4_decoder_new True)) \<and>
   (\<exists>s'. LZ4_decoder_write store_decompress_safe (LZ4_decoder_new True)
            [0x02, 0x21, 0x4c, 0x18, 3, 0, 0, 0, 0x20, 7] = Inr (s', 10, []) \<and>
         dec_init s' \<and> block_sz s' = 3 \<and> dec_buf_off s' = 2 \<and> take 2 (buffer s') = [0x20, 7]) \<and>
   LZ4_decoder_write store_decompress_safe (LZ4_decoder_new True)
       [0x02, 0x21, 0x4c, 0x18, 3, 0, 0, 0, 0x20, 7] =
     Inr (\<lparr>fp = True, buffer = [0x20, 7], dec_init = True, block_sz = 3, dec_buf_off = 2\<rparr>,
          10, []) \<and>
   store_decompress_safe [0x20, 7, 9] LZ4_UNCOMPRESSED = Some [7, 9] \<and>
   store_decompress_safe [0x10, 5] LZ4_UNCOMPRESSED = Some [5] \<and>
   (\<exists>s'. LZ4_decoder_write store_decompress_safe
            \<lparr>fp = True, buffer = [0x20, 7], dec_init = True, block_sz = 3, dec_buf_off = 2\<rparr>
            [9, 2, 0, 0, 0, 0x10, 5, 3, 0, 0, 0] = Inr (s', 11, [7, 9, 5]) \<and>
         block_sz s' = 3 \<and> dec_buf_off s' = 0) \<and>
   LZ4_decoder_write store_decompress_safe
       \<lparr>fp = True, buffer = [0x20, 7], dec_init = True, block_sz = 3, dec_buf_off = 2\<rparr>
       [9, 2, 0, 0, 0, 0x10, 5, 3, 0, 0, 0] =
     Inr (\<lparr>fp = True, buffer = [0x10, 5], dec_init = True, block_sz = 3, dec_buf_off = 0\<rparr>,
          11, [7, 9, 5]) \<and>
   LZ4_decoder_write store_decompress_safe
       \<lparr>fp = True, buffer = [0x20], dec_init = True, block_sz = 3, dec_buf_off = 1\<rparr> [7] =
     Inr (\<lparr>fp = True, buffer = [0x20, 7], dec_init = True, block_sz = 3, dec_buf_off = 2\<rparr>,
          1, []) \<and>
   (\<exists>s'. write_windows store_lib DecompressionError
            (LZ4_dec \<lparr>fp = True, buffer = [], dec_init = True, block_sz = 3, dec_buf_off = 0\<rparr>)
            [[0x20], [7], [9]] = Some (Inr (LZ4_dec s', [7, 9])) \<and>
         block_sz s' = 0 \<and> dec_buf_off s' = 0) \<and>
   write_windows store_lib DecompressionError
       (LZ4_dec \<lparr>fp = True, buffer = [], dec_init = True, block_sz = 3, dec_buf_off = 0\<rparr>)
       [[0x20], [7], [9]] =
     Some (Inr (LZ4_dec \<lparr>fp = True, buffer = [0x20, 7, 9], dec_init = True, block_sz = 0,
                         dec_buf_off = 0\<rparr>, [7, 9]))"
proof -
  let ?s0 = "LZ4_decoder_new True"
  let ?s1 = "\<lparr>fp = True, buffer = [0x20, 7], dec_init = True, block_sz = 3, dec_buf_off = 2\<rparr>"
  let ?sa = "\<lparr>fp = True, buffer = [0x20], dec_init = True, block_sz = 3, dec_buf_off = 1\<rparr>"
  let ?none = "[] :: (bytes \<times> bytes) list"
  let ?recs = "[([2, 0, 0, 0], [0x10, 5])] :: (bytes \<times> bytes) list"
  let ?call1 = "[0x02, 0x21, 0x4c, 0x18, 3, 0, 0, 0, 0x20, 7] :: bytes"
  let ?call2 = "[9, 2, 0, 0, 0, 0x10, 5, 3, 0, 0, 0] :: bytes"
  have r3: "le32_read [3, 0, 0, 0] = 3" and r2: "le32_read [2, 0, 0, 0] = 2"
    by (simp_all add: le32_read_def)
  have d1: "store_decompress_safe [0x20, 7, 9] LZ4_UNCOMPRESSED = Some [7, 9]"
    and d2: "store_decompress_safe [0x10, 5] LZ4_UNCOMPRESSED = Some [5]"
    by (simp_all add: store_decompress_safe_def LZ4_UNCOMPRESSED_def)
  have inv0: "dec_buf_off ?s0 \<le> unat (block_sz ?s0)"
    by (simp add: LZ4_decoder_new_def)
  have inv1: "dec_buf_off ?s1 \<le> unat (block_sz ?s1)" by simp
  have inva: "dec_buf_off ?sa \<le> unat (block_sz ?sa)" by simp
  have "\<exists>s'. LZ4_decoder_write store_decompress_safe ?s0 ?call1 =
          Inr (s', int (length ?call1),
               [] @ concat (map (\<lambda>(p, b). if b = [] then []
                                  else the (store_decompress_safe b LZ4_UNCOMPRESSED)) ?none)) \<and>
          fp s' \<and> dec_init s' \<and>
          block_sz s' = (if [3, 0, 0, 0 :: byte] = [] then 0 else le32_read [3, 0, 0, 0]) \<and>
          dec_buf_off s' = length [0x20, 7 :: byte] \<and>
          take (length [0x20, 7 :: byte]) (buffer s') = [0x20, 7]"
    by (rule C8_fill_offset_invariant
        [where f = True and s = ?s0 and dec = store_decompress_safe and inbuf = ?call1
           and skip = "[0x02, 0x21, 0x4c, 0x18]" and rest = "[]" and w = "[]"
           and records = ?none and tp = "[3, 0, 0, 0]" and part = "[0x20, 7]",
         THEN conjunct2, THEN mp, OF inv0, THEN conjunct2, THEN conjunct2, THEN conjunct1,
         THEN mp])
      (simp add: LZ4_decoder_new_def r3 LZ4_COMPRESSED_def LZ4_COMPRESSBOUND_def
        LZ4_UNCOMPRESSED_def)
  then obtain s' where
    "LZ4_decoder_write store_decompress_safe ?s0 ?call1 =
          Inr (s', int (length ?call1),
               [] @ concat (map (\<lambda>(p, b). if b = [] then []
                                  else the (store_decompress_safe b LZ4_UNCOMPRESSED)) ?none))"
    "dec_init s'"
    "block_sz s' = (if [3, 0, 0, 0 :: byte] = [] then 0 else le32_read [3, 0, 0, 0])"
    "dec_buf_off s' = length [0x20, 7 :: byte]"
    "take (length [0x20, 7 :: byte]) (buffer s') = [0x20, 7]" by blast
  then have "LZ4_decoder_write store_decompress_safe ?s0 ?call1 = Inr (s', 10, [])"
    "dec_init s'" "block_sz s' = 3" "dec_buf_off s' = 2" "take 2 (buffer s') = [0x20, 7]"
    by (simp_all add: r3 numeral_2_eq_2)
  then have first:
    "\<exists>s'. LZ4_decoder_write store_decompress_safe ?s0 ?call1 = Inr (s', 10, []) \<and>
         dec_init s' \<and> block_sz s' = 3 \<and> dec_buf_off s' = 2 \<and> take 2 (buffer s') = [0x20, 7]"
    by blast
  have "\<exists>s'. LZ4_decoder_write store_decompress_safe ?s1 ?call2 =
          Inr (s', int (length ?call2),
               [7, 9] @ concat (map (\<lambda>(p, b). if b = [] then []
                                  else the (store_decompress_safe b LZ4_UNCOMPRESSED)) ?recs)) \<and>
          fp s' \<and> dec_init s' \<and>
          block_sz s' = (if [3, 0, 0, 0 :: byte] = [] then 0 else le32_read [3, 0, 0, 0]) \<and>
          dec_buf_off s' = length ([] :: bytes) \<and>
          take (length ([] :: bytes)) (buffer s') = []"
    by (rule C8_fill_offset_invariant
        [where f = True and s = ?s1 and dec = store_decompress_safe and inbuf = ?call2
           and skip = "[]" and rest = "[9]" and w = "[7, 9]"
           and records = ?recs and tp = "[3, 0, 0, 0]" and part = "[]",
         THEN conjunct2, THEN mp, OF inv1, THEN conjunct2, THEN conjunct2, THEN conjunct1,
         THEN mp])
      (simp add: r3 r2 store_decompress_safe_def LZ4_COMPRESSED_def LZ4_COMPRESSBOUND_def
        LZ4_UNCOMPRESSED_def)
  then obtain s'' where
    "LZ4_decoder_write store_decompress_safe ?s1 ?call2 =
          Inr (s'', int (length ?call2),
               [7, 9] @ concat (map (\<lambda>(p, b). if b = [] then []
                                  else the (store_decompress_safe b LZ4_UNCOMPRESSED)) ?recs))"
    "block_sz s'' = (if [3, 0, 0, 0 :: byte] = [] then 0 else le32_read [3, 0, 0, 0])"
    "dec_buf_off s'' = length ([] :: bytes)" by blast
  then have "LZ4_decoder_write store_decompress_safe ?s1 ?call2 = Inr (s'', 11, [7, 9, 5])"
    "block_sz s'' = 3" "dec_buf_off s'' = 0"
    by (simp_all add: r3 d2)
  then have second:
    "\<exists>s'. LZ4_decoder_write store_decompress_safe ?s1 ?call2 = Inr (s', 11, [7, 9, 5]) \<and>
         block_sz s' = 3 \<and> dec_buf_off s' = 0"
    by blast
  have third: "LZ4_decoder_write store_decompress_safe ?sa [7] =
      Inr (\<lparr>fp = True, buffer = [0x20, 7], dec_init = True, block_sz = 3, dec_buf_off = 2\<rparr>,
           1, [])"
    using C8_fill_offset_invariant
        [where f = True and s = ?sa and dec = store_decompress_safe and inbuf = "[7]",
         THEN conjunct2, THEN mp, OF inva, THEN conjunct2, THEN conjunct1]
    by (simp add: LZ4_COMPRESSED_def LZ4_COMPRESSBOUND_def LZ4_UNCOMPRESSED_def)
  let ?sb = "\<lparr>fp = True, buffer = [], dec_init = True, block_sz = 3, dec_buf_off = 0\<rparr>"
  have invb: "dec_buf_off ?sb \<le> unat (block_sz ?sb)" by simp
  have "\<exists>s'. write_windows store_lib DecompressionError (LZ4_dec ?sb) ([[0x20], [7]] @ [[9]]) =
            Some (Inr (LZ4_dec s', [7, 9])) \<and>
          fp s' \<and> dec_init s' \<and> block_sz s' = 0 \<and> dec_buf_off s' = 0"
    by (rule C8_fill_offset_invariant
        [where f = True and s = ?sb and lib = store_lib and calls = "[[0x20], [7]]"
           and last_call = "[9]" and v = "[7, 9]",
         THEN conjunct2, THEN mp, OF invb, THEN conjunct2, THEN conjunct2, THEN conjunct2,
         THEN mp])
      (simp add: store_lib_def store_decompress_safe_def LZ4_COMPRESSED_def
        LZ4_COMPRESSBOUND_def LZ4_UNCOMPRESSED_def)
  then have fourth:
    "\<exists>s'. write_windows store_lib DecompressionError (LZ4_dec ?sb) [[0x20], [7], [9]] =
            Some (Inr (LZ4_dec s', [7, 9])) \<and> block_sz s' = 0 \<and> dec_buf_off s' = 0"
    by auto
  show ?thesis
    by (intro conjI; (fact inv0 first store_decoder_first_call d1 d2 second
          store_decoder_second_call third fourth store_decoder_three_calls))
qed

text \<open>
  C1 on the legacy LZ4 decoder.  The 17 bytes below are what the legacy encoder produces
  for the input \<open>[1, 2, 3, 4]\<close> with the storing block coder.  Handed to the decoder in one
  \<open>write\<close> they decode to \<open>[1, 2, 3, 4]\<close>; handed over one byte per \<open>write\<close>, the first call
  already skips 4 bytes of a 1-byte buffer and reads past its end.
\<close>

theorem C1_lz4_legacy_decoder_one_byte_writes:
  "LZ4_encoder_writes store_hc (LZ4_encoder_new True) [[1, 2, 3, 4]] =
     Inr (\<lparr>fp = True, buf = [1, 2, 3, 4], enc_init = True, enc_buf_off = 4, in_total = 4\<rparr>,
          [0x02, 0x21, 0x4c, 0x18]) \<and>
   LZ4_encoder_close store_hc
       \<lparr>fp = True, buf = [1, 2, 3, 4], enc_init = True, enc_buf_off = 4, in_total = 4\<rparr> =
     Some (Inr (\<lparr>fp = False, buf = [1, 2, 3, 4], enc_init = True, enc_buf_off = 4, in_total = 4\<rparr>,
                0, [5, 0, 0, 0, 0x40, 1, 2, 3, 4, 4, 0, 0, 0])) \<and>
   write_windows store_lib DecompressionError (LZ4_dec (LZ4_decoder_new True))
       [[0x02, 0x21, 0x4c, 0x18, 5, 0, 0, 0, 0x40, 1, 2, 3, 4, 4, 0, 0, 0]] =
     Some (Inr (LZ4_dec \<lparr>fp = True, buffer = [0x40, 1, 2, 3, 4], dec_init = True,
                         block_sz = 4, dec_buf_off = 0\<rparr>, [1, 2, 3, 4])) \<and>
   write_windows store_lib DecompressionError (LZ4_dec (LZ4_decoder_new True))
       [[0x02], [0x21], [0x4c], [0x18], [5], [0], [0], [0], [0x40], [1], [2], [3], [4],
        [4], [0], [0], [0]] =
     Some (Inl ReadOutOfBounds)"
proof (intro conjI)
  show "LZ4_encoder_writes store_hc (LZ4_encoder_new True) [[1, 2, 3, 4]] =
     Inr (\<lparr>fp = True, buf = [1, 2, 3, 4], enc_init = True, enc_buf_off = 4, in_total = 4\<rparr>,
          [0x02, 0x21, 0x4c, 0x18])"
    by (simp add: LZ4_encoder_write_def LZ4_encoder_new_def filter_stream_write_def
        LZ4_encoder_loop.simps LZ4_UNCOMPRESSED_def LZ4_magic_def)
  show "LZ4_encoder_close store_hc
       \<lparr>fp = True, buf = [1, 2, 3, 4], enc_init = True, enc_buf_off = 4, in_total = 4\<rparr> =
     Some (Inr (\<lparr>fp = False, buf = [1, 2, 3, 4], enc_init = True, enc_buf_off = 4, in_total = 4\<rparr>,
                0, [5, 0, 0, 0, 0x40, 1, 2, 3, 4, 4, 0, 0, 0]))"
    by (simp add: LZ4_encoder_close_open store_hc_def le32_def)
  show "write_windows store_lib DecompressionError (LZ4_dec (LZ4_decoder_new True))
       [[0x02, 0x21, 0x4c, 0x18, 5, 0, 0, 0, 0x40, 1, 2, 3, 4, 4, 0, 0, 0]] =
     Some (Inr (LZ4_dec \<lparr>fp = True, buffer = [0x40, 1, 2, 3, 4], dec_init = True,
                         block_sz = 4, dec_buf_off = 0\<rparr>, [1, 2, 3, 4]))"
    by (simp add: with_class_def LZ4_decoder_write_def LZ4_decoder_new_def
        LZ4_decoder_loop.simps le32_read_def Let_def store_lib_def store_decompress_safe_def
        filter_stream_write_def LZ4_COMPRESSED_def LZ4_COMPRESSBOUND_def LZ4_UNCOMPRESSED_def)
  show "write_windows store_lib DecompressionError (LZ4_dec (LZ4_decoder_new True))
       [[0x02], [0x21], [0x4c], [0x18], [5], [0], [0], [0], [0x40], [1], [2], [3], [4],
        [4], [0], [0], [0]] =
     Some (Inl ReadOutOfBounds)"
    by (simp add: with_class_def LZ4_decoder_write_def LZ4_decoder_new_def)
qed

subsection \<open>Close, close again, destroy\<close>

lemma gz_loop_fp:
  assumes "gz_loop lib flush ret s next_in out = Some y"
  shows "case y of Inl e \<Rightarrow> True | Inr (s', r, out') \<Rightarrow> fp s' = fp s"
proof (rule gz_loop.raw_induct[OF _ assms], goal_cases)
  case (1 loop lib flush ret s next_in out y)
  from 1(2) show ?case
    by (auto split: prod.splits if_splits sum.splits dest: 1(1))
qed

lemma bz_loop_fp:
  assumes "bz_loop lib flush ret s next_in out = Some y"
  shows "case y of Inl e \<Rightarrow> True | Inr (s', r, out') \<Rightarrow> fp s' = fp s"
proof (rule bz_loop.raw_induct[OF _ assms], goal_cases)
  case (1 loop lib flush ret s next_in out y)
  from 1(2) show ?case
    by (auto split: prod.splits if_splits sum.splits dest: 1(1))
qed

lemma lzma_loop_fp:
  assumes "lzma_loop lib flush ret s next_in out = Some y"
  shows "case y of Inl e \<Rightarrow> True | Inr (s', r, out') \<Rightarrow> fp s' = fp s"
proof (rule lzma_loop.raw_induct[OF _ assms], goal_cases)
  case (1 loop lib flush ret s next_in out y)
  from 1(2) show ?case
    by (auto split: prod.splits if_splits sum.splits dest: 1(1))
qed

lemma gz_finish_fp: "gz_finish lib s = Some (Inr (s', out)) \<Longrightarrow> fp s' = fp s"
  by (auto simp: gz_finish_def gz_write3_def split: option.splits sum.splits prod.splits
      dest!: gz_loop_fp)

lemma bz_finish_fp: "bz_finish lib s = Some (Inr (s', out)) \<Longrightarrow> fp s' = fp s"
  by (auto simp: bz_finish_def bz_write3_def
      split: option.splits sum.splits prod.splits bz_mode_t.splits dest!: bz_loop_fp)

lemma lzma_finish_fp: "lzma_finish lib s = Some (Inr (s', out)) \<Longrightarrow> fp s' = fp s"
  by (auto simp: lzma_finish_def lzma_write3_def split: option.splits sum.splits prod.splits
      dest!: lzma_loop_fp)

lemma LZ4F_encoder_finish_fp: "LZ4F_encoder_finish lib s = Inr (s', out) \<Longrightarrow> fp s' = fp s"
  by (auto simp: LZ4F_encoder_finish_def split: prod.splits if_splits sum.splits)

lemma LZ4_encoder_finish_fp: "LZ4_encoder_finish hc s = Inr (s', out) \<Longrightarrow> fp s' = fp s"
  by (auto simp: LZ4_encoder_finish_def Let_def split: if_splits sum.splits)

lemma cpr_stream_close_fp:
  "cpr_stream_close finish s = Some (Inr (s', r, out)) \<Longrightarrow> \<not> fp s'"
  by (auto simp: cpr_stream_close_def filter_stream_close_def
      split: option.splits sum.splits prod.splits if_splits)

lemma cpr_stream_close_again:
  assumes "\<not> fp s" and "\<And>s1 out. finish s = Some (Inr (s1, out)) \<Longrightarrow> fp s1 = fp s"
  shows "cpr_stream_close finish s \<noteq> Some (Inr x)"
  using assms
  by (auto simp: cpr_stream_close_def filter_stream_close_def
      split: option.splits sum.splits prod.splits)

lemma stream_close_fp:
  "stream_close lib a = Some (Inr (a', r, out)) \<Longrightarrow> \<not> stream_fp a'"
  by (cases a)
    (auto simp: with_class_def LZ4_decoder_close_def LZ4_encoder_close_def
      split: option.splits sum.splits prod.splits dest: cpr_stream_close_fp)

lemma stream_dtor_closed:
  "\<not> stream_fp a \<Longrightarrow> stream_dtor lib a = Some (Inr (a, []))"
  by (cases a) (simp_all add: with_class_def destroy_def LZ4_encoder_dtor_def)

lemma stream_close_closed:
  assumes "\<not> stream_fp a"
  shows "stream_close lib a \<noteq> Some (Inr x)"
proof (cases a)
  case (Gz_strm s)
  with assms cpr_stream_close_again[of s "gz_finish lib"] gz_finish_fp[of lib s]
  show ?thesis by (auto simp: with_class_def split: option.splits sum.splits prod.splits)
next
  case (Bz_strm s)
  with assms cpr_stream_close_again[of s "bz_finish lib"] bz_finish_fp[of lib s]
  show ?thesis by (auto simp: with_class_def split: option.splits sum.splits prod.splits)
next
  case (Lzma_strm s)
  with assms cpr_stream_close_again[of s "lzma_finish lib"] lzma_finish_fp[of lib s]
  show ?thesis by (auto simp: with_class_def split: option.splits sum.splits prod.splits)
next
  case (LZ4F_dec s)
  with assms cpr_stream_close_again[of s cpr_stream_finish]
  show ?thesis
    by (auto simp: with_class_def cpr_stream_finish_def
        split: option.splits sum.splits prod.splits)
next
  case (LZ4F_enc s)
  with assms cpr_stream_close_again[of s "\<lambda>s. Some (LZ4F_encoder_finish lib s)"]
    LZ4F_encoder_finish_fp[of lib s]
  show ?thesis by (auto simp: with_class_def split: option.splits sum.splits prod.splits)
next
  case (LZ4_dec s)
  with assms cpr_stream_close_again[of s cpr_stream_finish]
  show ?thesis
    by (auto simp: with_class_def cpr_stream_finish_def LZ4_decoder_close_def
        split: option.splits sum.splits prod.splits)
next
  case (LZ4_enc s)
  with assms
    cpr_stream_close_again[of s "\<lambda>s. Some (LZ4_encoder_finish (LZ4_compress_HC lib) s)"]
    LZ4_encoder_finish_fp[of "LZ4_compress_HC lib" s]
  show ?thesis
    by (auto simp: with_class_def LZ4_encoder_close_def
        split: option.splits sum.splits prod.splits)
qed

text \<open>
  C5, as the code has it.  After a close that returned, the adapter's \<open>fp\<close> is null;
  destroying the adapter then does nothing and emits nothing, for every class.  A second
  close is another matter: it never returns normally.
\<close>

theorem C5_destroy_after_close:
  assumes "stream_close lib a = Some (Inr (a', r, out))"
  shows "\<not> stream_fp a' \<and> stream_dtor lib a' = Some (Inr (a', [])) \<and>
         (\<forall>x. stream_close lib a' \<noteq> Some (Inr x))"
  using stream_close_fp[OF assms] stream_dtor_closed stream_close_closed by blast

lemma gz_encoder_store_close:
  "stream_close store_lib (Gz_strm (gz_encoder store_lib True)) =
     Some (Inr (Gz_strm (gz_encoder store_lib False), 0, []))"
  by (simp add: with_class_def cpr_stream_close_def gz_finish_def gz_write3_def
      gz_loop.simps gz_encoder_def gz_strm_new_def store_lib_def store_step_def
      filter_stream_write_def filter_stream_close_def CHUNK_def Z_STREAM_ERROR_def)

theorem C5_destroy_after_close_witness:
  "stream_close store_lib (Gz_strm (gz_encoder store_lib True)) =
     Some (Inr (Gz_strm (gz_encoder store_lib False), 0, [])) \<and>
   \<not> stream_fp (Gz_strm (gz_encoder store_lib False)) \<and>
   stream_dtor store_lib (Gz_strm (gz_encoder store_lib False)) =
     Some (Inr (Gz_strm (gz_encoder store_lib False), []))"
  using C5_destroy_after_close[OF gz_encoder_store_close] gz_encoder_store_close by simp

text \<open>
  C5 as stated fails on the second close.  For the legacy LZ4 decoder, whose \<open>finish\<close> is
  empty, the second close is \<open>fclose\<close> on the null \<open>fp\<close>; for the legacy LZ4 encoder it is
  \<open>finish\<close> once more, writing the total to the null \<open>fp\<close>.
\<close>

theorem C5_second_close_counterexample:
  "stream_close store_lib (LZ4_dec (LZ4_decoder_new True)) =
     Some (Inr (LZ4_dec (LZ4_decoder_new False), 0, [])) \<and>
   stream_close store_lib (LZ4_dec (LZ4_decoder_new False)) = Some (Inl NullFile) \<and>
   stream_close store_lib (LZ4_enc (LZ4_encoder_new True)) =
     Some (Inr (LZ4_enc (LZ4_encoder_new False), 0, [0, 0, 0, 0])) \<and>
   stream_close store_lib (LZ4_enc (LZ4_encoder_new False)) = Some (Inl NullFile)"
  by (simp add: with_class_def LZ4_decoder_close_def LZ4_encoder_close_def cpr_stream_close_def
      cpr_stream_finish_def filter_stream_close_def LZ4_decoder_new_def LZ4_encoder_new_def
      LZ4_encoder_finish_def filter_stream_write_def le32_def)

subsection \<open>The output path of decompress\<close>

lemma strrchr_None: "strrchr xs c = None \<longleftrightarrow> c \<notin> set xs"
  by (induction xs) (auto split: option.splits)

lemma strrchr_append: "c \<notin> set e \<Longrightarrow> strrchr (p @ c # e) c = Some (length p)"
proof (induction p)
  case Nil
  then have "strrchr e c = None" by (simp add: strrchr_None)
  then show ?case by simp
next
  case (Cons x p)
  then show ?case by simp
qed

lemma strrchr_Some:
  "strrchr xs c = Some i \<Longrightarrow> i < length xs \<and> xs ! i = c \<and> c \<notin> set (drop (Suc i) xs)"
proof (induction xs arbitrary: i)
  case Nil
  then show ?case by simp
next
  case (Cons x xs)
  show ?case
  proof (cases "strrchr xs c")
    case None
    with Cons.prems have "x = c" "i = 0" by (auto split: if_splits)
    with None show ?thesis by (simp add: strrchr_None)
  next
    case (Some j)
    with Cons.prems have "i = Suc j" by simp
    with Cons.IH[OF Some] show ?thesis by simp
  qed
qed

lemma decompress_outfile_match:
  assumes "infile \<noteq> ''-''" "fmt2ext tabs t = CHR ''.'' # e" "CHR ''.'' \<notin> set e"
    and "infile = p @ CHR ''.'' # e"
  shows "decompress_outfile tabs t infile None = Inr (p, True)"
  using assms by (simp add: decompress_outfile_def strrchr_append)

lemma decompress_outfile_mismatch:
  assumes "infile \<noteq> ''-''" "\<not> suffix (fmt2ext tabs t) infile"
  shows "decompress_outfile tabs t infile None = Inl UnsupportedType"
proof (cases "strrchr infile CHR ''.''")
  case None
  with assms(1) show ?thesis by (simp add: decompress_outfile_def)
next
  case (Some i)
  have "infile = take i infile @ drop i infile" by simp
  then have "suffix (drop i infile) infile" by (metis suffixI)
  with assms(2) have "drop i infile \<noteq> fmt2ext tabs t" by auto
  with assms(1) Some show ?thesis by (simp add: decompress_outfile_def)
qed

lemma fread_windows_nonempty:
  "data \<noteq> [] \<Longrightarrow> fread_windows data = take 4096 data # fread_windows (drop 4096 data)"
  by (subst fread_windows.simps) simp

text \<open>
  C7.  \<open>decompress\<close> is called without an output, on a path other than \<open>''-''\<close> and on a
  non-empty input whose first window is detected as the compressed format \<open>t\<close>.  The table
  gives \<open>t\<close> an extension made of a dot and dot-free characters \<open>e\<close> (the table is not among
  the sources).  If the input path is \<open>p\<close> followed by that extension, the output path is
  \<open>p\<close> and the input is marked for removal, so every successful run reports \<open>p\<close>; if the
  extension is not a suffix of the input path, the operation ends with the
  unsupported-type error.
\<close>

theorem C7_decompress_output_path:
  assumes "infile \<noteq> ''-''" and "data \<noteq> []"
    and "t = check_fmt tabs (take 4096 data)" and "COMPRESSED tabs t"
    and "fmt2ext tabs t = CHR ''.'' # e" and "CHR ''.'' \<notin> set e"
  shows "(infile = p @ CHR ''.'' # e \<longrightarrow>
            decompress_outfile tabs t infile None = Inr (p, True) \<and>
            (\<forall>r. decompress lib tabs infile None data = Some (Inr r) \<longrightarrow>
                   out_path r = p \<and> rm_in r)) \<and>
         (\<not> suffix (fmt2ext tabs t) infile \<longrightarrow>
            decompress lib tabs infile None data = Some (Inl UnsupportedType))"
proof (intro conjI impI allI)
  assume m: "infile = p @ CHR ''.'' # e"
  from decompress_outfile_match[OF assms(1,5,6) m]
  show o: "decompress_outfile tabs t infile None = Inr (p, True)" .
  fix r
  assume "decompress lib tabs infile None data = Some (Inr r)"
  then show "out_path r = p" "rm_in r"
    using assms(2,3,4) o
    by (auto simp: decompress_def fread_windows_nonempty Let_def
        split: option.splits sum.splits prod.splits if_splits)
next
  assume "\<not> suffix (fmt2ext tabs t) infile"
  from decompress_outfile_mismatch[OF assms(1) this]
  show "decompress lib tabs infile None data = Some (Inl UnsupportedType)"
    using assms(2,3,4) by (simp add: decompress_def fread_windows_nonempty Let_def)
qed

lemma store_decompress_gz:
  "decompress store_lib store_tables ''archive.gz'' None [0x1f, 0x8b, 8] =
     Some (Inr \<lparr>out_path = ''archive'', out_data = [0x1f, 0x8b, 8], rm_in = True\<rparr>)"
  by (simp add: decompress_def fread_windows.simps store_tables_def store_ext_def
      decompress_outfile_def gz_decoder_def gz_strm_new_def store_lib_def with_class_def
      gz_write_def gz_write3_def gz_loop.simps store_step_def filter_stream_write_def
      CHUNK_def Z_STREAM_ERROR_def Z_NO_FLUSH_def Z_FINISH_def close_and_delete_def
      cpr_stream_close_def gz_finish_def filter_stream_close_def destroy_def)

theorem C7_decompress_output_path_witness:
  "''archive.gz'' \<noteq> ''-'' \<and> [0x1f, 0x8b, 8 :: byte] \<noteq> [] \<and>
   GZIP = check_fmt store_tables (take 4096 [0x1f, 0x8b, 8]) \<and>
   COMPRESSED store_tables GZIP \<and> fmt2ext store_tables GZIP = CHR ''.'' # ''gz'' \<and>
   CHR ''.'' \<notin> set ''gz'' \<and> ''archive.gz'' = ''archive'' @ CHR ''.'' # ''gz'' \<and>
   decompress_outfile store_tables GZIP ''archive.gz'' None = Inr (''archive'', True) \<and>
   decompress store_lib store_tables ''archive.gz'' None [0x1f, 0x8b, 8] =
     Some (Inr \<lparr>out_path = ''archive'', out_data = [0x1f, 0x8b, 8], rm_in = True\<rparr>) \<and>
   \<not> suffix (fmt2ext store_tables GZIP) ''archive.bin'' \<and>
   decompress store_lib store_tables ''archive.bin'' None [0x1f, 0x8b, 8] =
     Some (Inl UnsupportedType)"
proof -
  have h: "''archive.gz'' \<noteq> ''-''" "''archive.bin'' \<noteq> ''-''" "[0x1f, 0x8b, 8 :: byte] \<noteq> []"
    "GZIP = check_fmt store_tables (take 4096 [0x1f, 0x8b, 8])"
    "COMPRESSED store_tables GZIP" "fmt2ext store_tables GZIP = CHR ''.'' # ''gz''"
    "CHR ''.'' \<notin> set ''gz''"
    by (simp_all add: store_tables_def store_ext_def)
  have n: "\<not> suffix (fmt2ext store_tables GZIP) ''archive.bin''"
    by (simp add: store_tables_def store_ext_def suffix_to_prefix)
  from C7_decompress_output_path[OF h(1) h(3) h(4) h(5) h(6) h(7), of "''archive''" store_lib]
    C7_decompress_output_path[OF h(2) h(3) h(4) h(5) h(6) h(7), of "''archive''" store_lib]
    h n store_decompress_gz
  show ?thesis by simp
qed

subsection \<open>Write failures and the read loops\<close>

lemma write_windows_LZ4_enc:
  "fp s \<Longrightarrow> enc_buf_off s \<le> LZ4_UNCOMPRESSED \<Longrightarrow>
   \<exists>s' out. write_windows lib err (LZ4_enc s) ws = Some (Inr (LZ4_enc s', out)) \<and> fp s'"
proof (induction ws arbitrary: s)
  case Nil
  then show ?case by simp
next
  case (Cons w ws)
  from LZ4_encoder_write_ok[OF Cons.prems, of "LZ4_compress_HC lib" w] obtain s1 r o1 where
    w: "LZ4_encoder_write (LZ4_compress_HC lib) s w = Inr (s1, r, o1)"
    and s1: "fp s1" "enc_buf_off s1 \<le> LZ4_UNCOMPRESSED" and r: "0 \<le> r" by blast
  from Cons.IH[OF s1] obtain s2 o2 where
    "write_windows lib err (LZ4_enc s1) ws = Some (Inr (LZ4_enc s2, o2))" "fp s2" by blast
  with w r show ?case by (simp add: with_class_def)
qed

lemma close_and_delete_LZ4_enc:
  "fp s \<Longrightarrow> \<exists>out. close_and_delete lib (LZ4_enc s) = Some (Inr out)"
  by (simp add: close_and_delete_def with_class_def LZ4_encoder_close_open
      LZ4_encoder_dtor_def destroy_def)

lemma compress_LZ4_LEGACY_returns:
  assumes "name2fmt tabs method = Some LZ4_LEGACY"
  shows "\<exists>r. compress lib tabs method infile outfile data = Some (Inr r)"
proof -
  have "fp (LZ4_encoder_new True)" "enc_buf_off (LZ4_encoder_new True) \<le> LZ4_UNCOMPRESSED"
    by (simp_all add: LZ4_encoder_new_def)
  from write_windows_LZ4_enc[OF this, of lib CompressionError "fread_windows data"]
  obtain s' o1 where
    w: "write_windows lib CompressionError (LZ4_enc (LZ4_encoder_new True)) (fread_windows data) =
          Some (Inr (LZ4_enc s', o1))" and "fp s'" by blast
  from close_and_delete_LZ4_enc[OF \<open>fp s'\<close>, of lib] obtain o2 where
    c: "close_and_delete lib (LZ4_enc s') = Some (Inr o2)" by blast
  from assms w c show ?thesis
    by (simp add: compress_def split: prod.splits)
qed

lemma LZ4_encoder_write_hc_failure:
  assumes "fp s" "enc_init s" "inbuf \<noteq> []" "enc_buf_off s \<le> LZ4_UNCOMPRESSED"
    and "LZ4_UNCOMPRESSED \<le> enc_buf_off s + length inbuf"
    and "hc (take LZ4_UNCOMPRESSED
              (take (enc_buf_off s) (buf s) @ take (LZ4_UNCOMPRESSED - enc_buf_off s) inbuf)) = []"
  shows "LZ4_encoder_write hc s inbuf =
           Inr (s\<lparr>in_total := in_total s + of_nat (length inbuf),
                  buf := take (enc_buf_off s) (buf s) @
                         take (LZ4_UNCOMPRESSED - enc_buf_off s) inbuf\<rparr>, 0, [])"
  using assms
  by (simp add: LZ4_encoder_write_def
      LZ4_encoder_loop.simps[of hc "s\<lparr>in_total := in_total s + of_nat (length inbuf)\<rparr>"]
      Let_def)

text \<open>
  C3 on the legacy LZ4 encoder.  \<open>compress\<close> to the legacy LZ4 container ends normally for
  every input and every library, one whose \<open>LZ4_compress_HC\<close> fails included: the call of
  \<open>write\<close> in which the compression of a full block fails returns 0 (\<open>false\<close>), no byte of the
  block reaches the sink, and the read loop, which looks for a negative value, goes on.
\<close>

theorem C3_lz4hc_failure_not_detected:
  "(name2fmt tabs method = Some LZ4_LEGACY \<longrightarrow>
      (\<exists>r. compress lib tabs method infile outfile data = Some (Inr r))) \<and>
   (fp s \<and> enc_init s \<and> inbuf \<noteq> [] \<and> enc_buf_off s \<le> LZ4_UNCOMPRESSED \<and>
    LZ4_UNCOMPRESSED \<le> enc_buf_off s + length inbuf \<and>
    LZ4_compress_HC lib
      (take LZ4_UNCOMPRESSED
         (take (enc_buf_off s) (buf s) @ take (LZ4_UNCOMPRESSED - enc_buf_off s) inbuf)) = [] \<longrightarrow>
      stream_write lib (LZ4_enc s) inbuf =
        Some (Inr (LZ4_enc (s\<lparr>in_total := in_total s + of_nat (length inbuf),
                               buf := take (enc_buf_off s) (buf s) @
                                      take (LZ4_UNCOMPRESSED - enc_buf_off s) inbuf\<rparr>), 0, [])) \<and>
      write_windows lib CompressionError (LZ4_enc s) [inbuf] =
        Some (Inr (LZ4_enc (s\<lparr>in_total := in_total s + of_nat (length inbuf),
                               buf := take (enc_buf_off s) (buf s) @
                                      take (LZ4_UNCOMPRESSED - enc_buf_off s) inbuf\<rparr>), [])))"
proof (intro conjI impI)
  assume "name2fmt tabs method = Some LZ4_LEGACY"
  then show "\<exists>r. compress lib tabs method infile outfile data = Some (Inr r)"
    by (rule compress_LZ4_LEGACY_returns)
next
  assume h: "fp s \<and> enc_init s \<and> inbuf \<noteq> [] \<and> enc_buf_off s \<le> LZ4_UNCOMPRESSED \<and>
    LZ4_UNCOMPRESSED \<le> enc_buf_off s + length inbuf \<and>
    LZ4_compress_HC lib
      (take LZ4_UNCOMPRESSED
         (take (enc_buf_off s) (buf s) @ take (LZ4_UNCOMPRESSED - enc_buf_off s) inbuf)) = []"
  then have w: "LZ4_encoder_write (LZ4_compress_HC lib) s inbuf =
           Inr (s\<lparr>in_total := in_total s + of_nat (length inbuf),
                  buf := take (enc_buf_off s) (buf s) @
                         take (LZ4_UNCOMPRESSED - enc_buf_off s) inbuf\<rparr>, 0, [])"
    using LZ4_encoder_write_hc_failure[of s inbuf "LZ4_compress_HC lib"] by blast
  then show "stream_write lib (LZ4_enc s) inbuf =
        Some (Inr (LZ4_enc (s\<lparr>in_total := in_total s + of_nat (length inbuf),
                               buf := take (enc_buf_off s) (buf s) @
                                      take (LZ4_UNCOMPRESSED - enc_buf_off s) inbuf\<rparr>), 0, []))"
    by (simp add: with_class_def)
  from w show "write_windows lib CompressionError (LZ4_enc s) [inbuf] =
        Some (Inr (LZ4_enc (s\<lparr>in_total := in_total s + of_nat (length inbuf),
                               buf := take (enc_buf_off s) (buf s) @
                                      take (LZ4_UNCOMPRESSED - enc_buf_off s) inbuf\<rparr>), []))"
    by (simp add: with_class_def)
qed

theorem C3_lz4hc_failure_not_detected_witness:
  "name2fmt store_tables ''lz4_legacy'' = Some LZ4_LEGACY \<and>
   (\<exists>r. compress failing_hc_lib store_tables ''lz4_legacy'' ''-'' None
           (replicate 8388608 0) = Some (Inr r)) \<and>
   LZ4_UNCOMPRESSED \<le> 8388607 + length [0 :: byte] \<and>
   LZ4_compress_HC failing_hc_lib
     (take LZ4_UNCOMPRESSED (take 8388607 (replicate 8388607 0) @ take 1 [0])) = [] \<and>
   stream_write failing_hc_lib
       (LZ4_enc \<lparr>fp = True, buf = replicate 8388607 0, enc_init = True,
                 enc_buf_off = 8388607, in_total = 8388607\<rparr>) [0] =
     Some (Inr (LZ4_enc \<lparr>fp = True, buf = replicate 8388607 0 @ [0], enc_init = True,
                         enc_buf_off = 8388607, in_total = 8388608\<rparr>, 0, [])) \<and>
   write_windows failing_hc_lib CompressionError
       (LZ4_enc \<lparr>fp = True, buf = replicate 8388607 0, enc_init = True,
                 enc_buf_off = 8388607, in_total = 8388607\<rparr>) [[0]] =
     Some (Inr (LZ4_enc \<lparr>fp = True, buf = replicate 8388607 0 @ [0], enc_init = True,
                         enc_buf_off = 8388607, in_total = 8388608\<rparr>, []))"
  using C3_lz4hc_failure_not_detected
    [of store_tables "''lz4_legacy''" failing_hc_lib "''-''" None "replicate 8388608 0"
        "\<lparr>fp = True, buf = replicate 8388607 0, enc_init = True,
          enc_buf_off = 8388607, in_total = 8388607\<rparr>" "[0]"]
  by (simp add: store_tables_def failing_hc_lib_def LZ4_UNCOMPRESSED_def)

subsection \<open>The LZ4 frame header\<close>

text \<open>
  C4 on the code.  When the first \<open>write\<close> does not hold the whole frame header, so that
  \<open>LZ4F_getFrameInfo\<close> reports an error and leaves \<open>info\<close> as it was, \<open>read_header\<close> still
  switches on \<open>info.blockSizeID\<close>, which was never assigned: the call does not buffer the
  partial header, and the output capacity it allocates is indeterminate.
\<close>

theorem C4_split_header_reads_unassigned_info:
  assumes "LZ4F_getFrameInfo lib (LZ4F_createDecompressionContext lib) inbuf = (c, None, n)"
  shows "stream_write lib (LZ4F_dec (LZ4F_decoder_new lib f)) inbuf =
           Some (Inl UninitialisedRead)"
  using assms
  by (simp add: with_class_def LZ4F_decoder_write_def LZ4F_decoder_new_def read_header_def)

lemma store_getFrameInfo_short:
  "LZ4F_getFrameInfo store_lib (LZ4F_createDecompressionContext store_lib) [0x04, 0x22, 0x4d] =
     ((), None, 0)"
  by (simp add: store_lib_def store_getFrameInfo_def)

theorem C4_split_header_reads_unassigned_info_witness:
  "LZ4F_getFrameInfo store_lib (LZ4F_createDecompressionContext store_lib) [0x04, 0x22, 0x4d] =
     ((), None, 0) \<and>
   stream_write store_lib (LZ4F_dec (LZ4F_decoder_new store_lib True)) [0x04, 0x22, 0x4d] =
     Some (Inl UninitialisedRead) \<and>
   stream_write store_lib (LZ4F_dec (LZ4F_decoder_new store_lib True))
       [0x04, 0x22, 0x4d, 0x18, 0x64, 0x40, 0xa7, 1, 2, 3] =
     Some (Inr (LZ4F_dec \<lparr>fp = True, dctx = (), dec_outbuf = True, dec_outCapacity = 65536\<rparr>,
                10, [1, 2, 3]))"
proof (intro conjI)
  show "LZ4F_getFrameInfo store_lib (LZ4F_createDecompressionContext store_lib)
          [0x04, 0x22, 0x4d] = ((), None, 0)"
    by (rule store_getFrameInfo_short)
  show "stream_write store_lib (LZ4F_dec (LZ4F_decoder_new store_lib True)) [0x04, 0x22, 0x4d] =
     Some (Inl UninitialisedRead)"
    using C4_split_header_reads_unassigned_info[OF store_getFrameInfo_short] .
  show "stream_write store_lib (LZ4F_dec (LZ4F_decoder_new store_lib True))
       [0x04, 0x22, 0x4d, 0x18, 0x64, 0x40, 0xa7, 1, 2, 3] =
     Some (Inr (LZ4F_dec \<lparr>fp = True, dctx = (), dec_outbuf = True, dec_outCapacity = 65536\<rparr>,
                10, [1, 2, 3]))"
    by (simp add: with_class_def LZ4F_decoder_write_def LZ4F_decoder_new_def read_header_def
        store_lib_def store_getFrameInfo_def LZ4F_decoder_loop.simps filter_stream_write_def)
qed

end
